theory Spec2Isabelle
  imports Main "HOL-Library.Word"
begin

unbundle bit_operations_syntax

section \<open>Data model of the execution payload\<close>

text \<open>
  The Go source declares \<^verbatim>\<open>ExecutionPayload\<close> as a struct of fixed-size byte arrays,
  64-bit counters, one pointer to a 256-bit integer and three variable-size fields.
  Fixed-size byte arrays are words of the same width (\<^verbatim>\<open>[32]byte\<close> is a 256-bit word,
  \<^verbatim>\<open>[20]byte\<close> a 160-bit word, \<^verbatim>\<open>[256]byte\<close> a 2048-bit word; array index \<open>i\<close> holds
  bits \<open>8 * i\<close> to \<open>8 * i + 7\<close>). A Go pointer or slice that the source compares with
  \<^verbatim>\<open>nil\<close> is an option: \<open>None\<close> is \<^verbatim>\<open>nil\<close>. The source tests only \<^verbatim>\<open>Withdrawals\<close> of
  a payload against \<^verbatim>\<open>nil\<close>; \<^verbatim>\<open>ExtraData\<close> and \<^verbatim>\<open>Transactions\<close> are only measured
  with \<^verbatim>\<open>len\<close> and ranged over, where a nil slice and an empty one behave alike, so
  they are plain lists. The element type \<^verbatim>\<open>*engineprimitives.Withdrawal\<close> is not part
  of the sources at hand and stays a type parameter \<open>'w\<close>.
\<close>

type_synonym byte = "8 word"
type_synonym U64 = "64 word"
type_synonym U256 = "256 word"
type_synonym Bytes32 = "256 word"
type_synonym ExecutionHash = "256 word"
type_synonym ExecutionAddress = "160 word"
type_synonym B256 = "2048 word"
type_synonym Root = "256 word"
type_synonym Version = "32 word"

record 'w ExecutionPayload =
  Versionable :: Version
  ParentHash :: ExecutionHash
  FeeRecipient :: ExecutionAddress
  StateRoot :: Bytes32
  ReceiptsRoot :: Bytes32
  LogsBloom :: B256
  Random :: Bytes32
  Number :: U64
  GasLimit :: U64
  GasUsed :: U64
  Timestamp :: U64
  ExtraData :: "byte list"
  BaseFeePerGas :: "U256 option"
  BlockHash :: ExecutionHash
  Transactions :: "byte list list"
  Withdrawals :: "'w list option"
  BlobGasUsed :: U64
  ExcessBlobGas :: U64

record ExecutionPayloadHeader =
  hdr_Versionable :: Version
  hdr_ParentHash :: ExecutionHash
  hdr_FeeRecipient :: ExecutionAddress
  hdr_StateRoot :: Bytes32
  hdr_ReceiptsRoot :: Bytes32
  hdr_LogsBloom :: B256
  hdr_Random :: Bytes32
  hdr_Number :: U64
  hdr_GasLimit :: U64
  hdr_GasUsed :: U64
  hdr_Timestamp :: U64
  hdr_ExtraData :: "byte list"
  hdr_BaseFeePerGas :: "U256 option"
  hdr_BlockHash :: ExecutionHash
  hdr_TransactionsRoot :: Root
  hdr_WithdrawalsRoot :: Root
  hdr_BlobGasUsed :: U64
  hdr_ExcessBlobGas :: U64

datatype error =
    ErrIncorrectListSize
  | MissingRequiredField string
  | UnknownForkVersion
  | CapacityExceeded
  | SizeMismatch
  | TruncatedInput
  | OffsetOutOfOrder
  | OffsetOutOfBounds
  | OtherError string

subsection \<open>Fork versions\<close>

text \<open>
  Package \<^verbatim>\<open>version\<close> is not part of the sources at hand. Its named forks are taken as
  parameters, gathered in one record, so that nothing below depends on their values.
\<close>

record version_pkg =
  Capella :: Version
  Deneb :: Version
  Deneb1 :: Version
  Electra :: Version
  Electra1 :: Version

text \<open>
  Modelled from the spec: \<^verbatim>\<open>version.EqualsOrIsAfter\<close> is missing from the sources; the
  spec says that versions are totally ordered (V0 < V1 < V2 < V3), so a version is at or
  after another when it is not smaller in that order.
\<close>

definition EqualsOrIsAfter :: "Version \<Rightarrow> Version \<Rightarrow> bool" where
  "EqualsOrIsAfter a b = (b \<le> a)"

text \<open>
  Modelled from the spec: \<^verbatim>\<open>NewVersionable\<close> and \<^verbatim>\<open>GetForkVersion\<close> of the embedded
  \<^verbatim>\<open>Versionable\<close> are missing from the sources; the spec says that a record is tagged
  with a protocol version at construction, so the tag is stored and read back.
\<close>

definition NewVersionable :: "Version \<Rightarrow> Version" where
  "NewVersionable forkVersion = forkVersion"

definition GetForkVersion :: "'w ExecutionPayload \<Rightarrow> Version" where
  "GetForkVersion p = Versionable p"

subsection \<open>Construction\<close>

definition NewEmptyExecutionPayloadWithVersion ::
  "version_pkg \<Rightarrow> Version \<Rightarrow> 'w ExecutionPayload" where
  "NewEmptyExecutionPayloadWithVersion V forkVersion =
     (let ep = \<lparr> Versionable = NewVersionable forkVersion,
                 ParentHash = 0, FeeRecipient = 0, StateRoot = 0, ReceiptsRoot = 0,
                 LogsBloom = 0, Random = 0, Number = 0, GasLimit = 0, GasUsed = 0,
                 Timestamp = 0, ExtraData = [], BaseFeePerGas = Some 0, BlockHash = 0,
                 Transactions = [], Withdrawals = None, BlobGasUsed = 0,
                 ExcessBlobGas = 0 \<rparr>
      in if EqualsOrIsAfter forkVersion (Capella V)
         then ep\<lparr>Withdrawals := Some []\<rparr>
         else ep)"

subsection \<open>Post-decode validation\<close>

text \<open>
  \<^verbatim>\<open>ValidateAfterDecodingSSZ\<close> mutates the receiver and returns an error value; the model
  returns the updated record together with the error (\<open>None\<close> is Go's \<^verbatim>\<open>nil\<close> error).
\<close>

definition ValidateAfterDecodingSSZ ::
  "version_pkg \<Rightarrow> 'w ExecutionPayload \<Rightarrow> 'w ExecutionPayload \<times> error option" where
  "ValidateAfterDecodingSSZ V p =
     (if Withdrawals p = None \<and> EqualsOrIsAfter (GetForkVersion p) (Capella V)
      then (p\<lparr>Withdrawals := Some []\<rparr>, None)
      else (p, None))"

subsection \<open>Getters and the projection to a header\<close>

definition GetParentHash :: "'w ExecutionPayload \<Rightarrow> ExecutionHash" where
  "GetParentHash p = ParentHash p"

definition GetFeeRecipient :: "'w ExecutionPayload \<Rightarrow> ExecutionAddress" where
  "GetFeeRecipient p = FeeRecipient p"

definition GetStateRoot :: "'w ExecutionPayload \<Rightarrow> Bytes32" where
  "GetStateRoot p = StateRoot p"

definition GetReceiptsRoot :: "'w ExecutionPayload \<Rightarrow> Bytes32" where
  "GetReceiptsRoot p = ReceiptsRoot p"

definition GetLogsBloom :: "'w ExecutionPayload \<Rightarrow> B256" where
  "GetLogsBloom p = LogsBloom p"

definition GetPrevRandao :: "'w ExecutionPayload \<Rightarrow> Bytes32" where
  "GetPrevRandao p = Random p"

definition GetNumber :: "'w ExecutionPayload \<Rightarrow> U64" where
  "GetNumber p = Number p"

definition GetGasLimit :: "'w ExecutionPayload \<Rightarrow> U64" where
  "GetGasLimit p = GasLimit p"

definition GetGasUsed :: "'w ExecutionPayload \<Rightarrow> U64" where
  "GetGasUsed p = GasUsed p"

definition GetTimestamp :: "'w ExecutionPayload \<Rightarrow> U64" where
  "GetTimestamp p = Timestamp p"

definition GetExtraData :: "'w ExecutionPayload \<Rightarrow> byte list" where
  "GetExtraData p = ExtraData p"

definition GetBaseFeePerGas :: "'w ExecutionPayload \<Rightarrow> U256 option" where
  "GetBaseFeePerGas p = BaseFeePerGas p"

definition GetBlockHash :: "'w ExecutionPayload \<Rightarrow> ExecutionHash" where
  "GetBlockHash p = BlockHash p"

definition GetTransactions :: "'w ExecutionPayload \<Rightarrow> byte list list" where
  "GetTransactions p = Transactions p"

definition GetWithdrawals :: "'w ExecutionPayload \<Rightarrow> 'w list option" where
  "GetWithdrawals p = Withdrawals p"

definition GetBlobGasUsed :: "'w ExecutionPayload \<Rightarrow> U64" where
  "GetBlobGasUsed p = BlobGasUsed p"

definition GetExcessBlobGas :: "'w ExecutionPayload \<Rightarrow> U64" where
  "GetExcessBlobGas p = ExcessBlobGas p"

text \<open>
  \<^verbatim>\<open>ToHeader\<close> calls the \<^verbatim>\<open>HashTreeRoot\<close> methods of \<^verbatim>\<open>engineprimitives.Transactions\<close>
  and \<^verbatim>\<open>engineprimitives.Withdrawals\<close>, which are not part of the sources at hand: they
  are the parameters \<open>txsRoot\<close> and \<open>wdsRoot\<close>. The Go \<^verbatim>\<open>switch\<close> with four case values
  is the disjunction of four equalities.
\<close>

definition ToHeader ::
  "version_pkg \<Rightarrow> (byte list list \<Rightarrow> Root) \<Rightarrow> ('w list option \<Rightarrow> Root) \<Rightarrow>
   'w ExecutionPayload \<Rightarrow> error + ExecutionPayloadHeader" where
  "ToHeader V txsRoot wdsRoot p =
     (if GetForkVersion p = Deneb V \<or> GetForkVersion p = Deneb1 V
         \<or> GetForkVersion p = Electra V \<or> GetForkVersion p = Electra1 V
      then Inr \<lparr> hdr_Versionable = Versionable p,
                 hdr_ParentHash = GetParentHash p,
                 hdr_FeeRecipient = GetFeeRecipient p,
                 hdr_StateRoot = GetStateRoot p,
                 hdr_ReceiptsRoot = GetReceiptsRoot p,
                 hdr_LogsBloom = GetLogsBloom p,
                 hdr_Random = GetPrevRandao p,
                 hdr_Number = GetNumber p,
                 hdr_GasLimit = GetGasLimit p,
                 hdr_GasUsed = GetGasUsed p,
                 hdr_Timestamp = GetTimestamp p,
                 hdr_ExtraData = GetExtraData p,
                 hdr_BaseFeePerGas = GetBaseFeePerGas p,
                 hdr_BlockHash = GetBlockHash p,
                 hdr_TransactionsRoot = txsRoot (GetTransactions p),
                 hdr_WithdrawalsRoot = wdsRoot (GetWithdrawals p),
                 hdr_BlobGasUsed = GetBlobGasUsed p,
                 hdr_ExcessBlobGas = GetExcessBlobGas p \<rparr>
      else Inl UnknownForkVersion)"

section \<open>SSZ: sizes, schema and encoder\<close>

subsection \<open>Bytes of fixed-width values\<close>

text \<open>
  \<open>bytes_of n w\<close> lists the \<open>n\<close> low bytes of \<open>w\<close>, least significant first: the
  little-endian encoding of an integer, and the elements of a byte array in index order.
  \<open>of_bytes\<close> reads such a list back.
\<close>

definition bytes_of :: "nat \<Rightarrow> 'a::len word \<Rightarrow> byte list" where
  "bytes_of n w = map (\<lambda>i. ucast (drop_bit (8 * i) w)) [0..<n]"

definition of_bytes :: "byte list \<Rightarrow> 'a::len word" where
  "of_bytes bs = word_of_int (horner_sum uint (2 ^ 8) bs)"

subsection \<open>Parameters: constants and the withdrawal element\<close>

text \<open>
  \<^verbatim>\<open>constants.MaxTxsPerPayload\<close> and \<^verbatim>\<open>constants.MaxBytesPerTx\<close> are declared outside the
  sources at hand and are parameters. So is the codec of the list element
  \<^verbatim>\<open>*engineprimitives.Withdrawal\<close>, a static SSZ object: its fixed size, its encoding and
  its decoding.
\<close>

record constants_pkg =
  MaxTxsPerPayload :: nat
  MaxBytesPerTx :: nat

record 'w withdrawal_codec =
  wd_SizeSSZ :: "32 word"
  wd_encode :: "'w \<Rightarrow> byte list"
  wd_decode :: "byte list \<Rightarrow> error + 'w"

subsection \<open>Size accounting\<close>

definition ExecutionPayloadStaticSize :: "32 word" where
  "ExecutionPayloadStaticSize = 528"

text \<open>
  Modelled from the spec: the size helpers of the SSZ library are missing from the
  sources. The spec's size accounting gives a variable byte field its length, a list of
  variable-size elements 4 bytes per element offset plus the sum of the element sizes,
  and a list of fixed-size elements the element count times the fixed element size.
  The results are \<^verbatim>\<open>uint32\<close>, as the return type of \<^verbatim>\<open>SizeSSZ\<close> is, and wrap around.
\<close>

definition SizeDynamicBytes :: "byte list \<Rightarrow> 32 word" where
  "SizeDynamicBytes blob = of_nat (length blob)"

definition SizeSliceOfDynamicBytes :: "byte list list \<Rightarrow> 32 word" where
  "SizeSliceOfDynamicBytes blobs = (\<Sum>blob\<leftarrow>blobs. 4 + of_nat (length blob))"

definition slice_of :: "'a list option \<Rightarrow> 'a list" where
  "slice_of s = (case s of None \<Rightarrow> [] | Some xs \<Rightarrow> xs)"

definition SizeSliceOfStaticObjects :: "'w withdrawal_codec \<Rightarrow> 'w list option \<Rightarrow> 32 word" where
  "SizeSliceOfStaticObjects W objects = of_nat (length (slice_of objects)) * wd_SizeSSZ W"

definition SizeSSZ :: "'w withdrawal_codec \<Rightarrow> 'w ExecutionPayload \<Rightarrow> bool \<Rightarrow> 32 word" where
  "SizeSSZ W p fixed =
     (let size = ExecutionPayloadStaticSize in
      if fixed then size
      else
        let size = size + SizeDynamicBytes (ExtraData p);
            size = size + SizeSliceOfDynamicBytes (Transactions p);
            size = size + SizeSliceOfStaticObjects W (Withdrawals p)
        in size)"

text \<open>
  Modelled from the spec: \<^verbatim>\<open>ssz.Size\<close> is missing from the sources; it is the spec's
  size-accounting function, the total size of a record with variable-size fields.
\<close>

definition ssz_Size :: "'w withdrawal_codec \<Rightarrow> 'w ExecutionPayload \<Rightarrow> 32 word" where
  "ssz_Size W p = SizeSSZ W p False"

subsection \<open>The schema\<close>

text \<open>
  \<^verbatim>\<open>DefineSSZ\<close> hands the codec one pointer per field, in declaration order. A pointer
  into the record is a pair of a reader and a writer; the one list of definitions below
  is what the encoder, the decoder and the schema-driven hasher each walk.
\<close>

record ('s, 'a) ptr =
  deref :: "'s \<Rightarrow> 'a"
  assign :: "'a \<Rightarrow> 's \<Rightarrow> 's"

datatype 'w codec_op =
    DefineStaticBytes nat "('w ExecutionPayload, byte list) ptr"
  | DefineUint64 "('w ExecutionPayload, U64) ptr"
  | DefineUint256 "('w ExecutionPayload, U256 option) ptr"
  | DefineDynamicBytesOffset "('w ExecutionPayload, byte list) ptr" nat
  | DefineSliceOfDynamicBytesOffset "('w ExecutionPayload, byte list list) ptr" nat nat
  | DefineSliceOfStaticObjectsOffset "('w ExecutionPayload, 'w list option) ptr" nat
  | DefineDynamicBytesContent "('w ExecutionPayload, byte list) ptr" nat
  | DefineSliceOfDynamicBytesContent "('w ExecutionPayload, byte list list) ptr" nat nat
  | DefineSliceOfStaticObjectsContent "('w ExecutionPayload, 'w list option) ptr" nat

definition field_ptr :: "('s \<Rightarrow> 'a) \<Rightarrow> (('a \<Rightarrow> 'a) \<Rightarrow> 's \<Rightarrow> 's) \<Rightarrow> ('s, 'a) ptr" where
  "field_ptr get upd = \<lparr> deref = get, assign = (\<lambda>v. upd (\<lambda>_. v)) \<rparr>"

definition array_ptr ::
  "nat \<Rightarrow> ('s \<Rightarrow> 'a::len word) \<Rightarrow> (('a word \<Rightarrow> 'a word) \<Rightarrow> 's \<Rightarrow> 's) \<Rightarrow> ('s, byte list) ptr" where
  "array_ptr n get upd =
     \<lparr> deref = (\<lambda>s. bytes_of n (get s)), assign = (\<lambda>bs. upd (\<lambda>_. of_bytes bs)) \<rparr>"

definition DefineSSZ :: "constants_pkg \<Rightarrow> 'w codec_op list" where
  "DefineSSZ K =
     [ DefineStaticBytes 32 (array_ptr 32 ParentHash ParentHash_update),
       DefineStaticBytes 20 (array_ptr 20 FeeRecipient FeeRecipient_update),
       DefineStaticBytes 32 (array_ptr 32 StateRoot StateRoot_update),
       DefineStaticBytes 32 (array_ptr 32 ReceiptsRoot ReceiptsRoot_update),
       DefineStaticBytes 256 (array_ptr 256 LogsBloom LogsBloom_update),
       DefineStaticBytes 32 (array_ptr 32 Random Random_update),
       DefineUint64 (field_ptr Number Number_update),
       DefineUint64 (field_ptr GasLimit GasLimit_update),
       DefineUint64 (field_ptr GasUsed GasUsed_update),
       DefineUint64 (field_ptr Timestamp Timestamp_update),
       DefineDynamicBytesOffset (field_ptr ExtraData ExtraData_update) 32,
       DefineUint256 (field_ptr BaseFeePerGas BaseFeePerGas_update),
       DefineStaticBytes 32 (array_ptr 32 BlockHash BlockHash_update),
       DefineSliceOfDynamicBytesOffset (field_ptr Transactions Transactions_update)
         (MaxTxsPerPayload K) (MaxBytesPerTx K),
       DefineSliceOfStaticObjectsOffset (field_ptr Withdrawals Withdrawals_update) 16,
       DefineUint64 (field_ptr BlobGasUsed BlobGasUsed_update),
       DefineUint64 (field_ptr ExcessBlobGas ExcessBlobGas_update),
       DefineDynamicBytesContent (field_ptr ExtraData ExtraData_update) 32,
       DefineSliceOfDynamicBytesContent (field_ptr Transactions Transactions_update)
         (MaxTxsPerPayload K) (MaxBytesPerTx K),
       DefineSliceOfStaticObjectsContent (field_ptr Withdrawals Withdrawals_update) 16 ]"

subsection \<open>The encoder\<close>

text \<open>
  Modelled from the spec: the encoder of the SSZ library (\<^verbatim>\<open>ssz.EncodeToBytes\<close> and what
  each definition of the schema does while encoding) is missing from the sources. After
  the spec's offset-table encoder: a fixed-size field appends its raw bytes (an
  integer little-endian); a variable-size field appends, in the static region, the 4-byte
  little-endian offset at which its content begins, counted from the start of the
  buffer, and, in the dynamic region, its content right after the previous one's. The
  first offset is the static size \<^verbatim>\<open>SizeSSZ(fixed = true)\<close>; each later one adds the size
  of the content before it. A list of variable-size byte strings is an offset table of
  its own (4 bytes per element, relative to the start of the list) followed by the
  elements; a list of static objects is the concatenation of its elements. A nil
  256-bit integer is written as zero. The maximum counts and lengths that the schema
  declares are not looked at while encoding: the encoder of the library writes what the
  record holds, whatever its size, and only the decoder and the hasher compare against a
  maximum.
\<close>

record encoder =
  enc_buf :: "byte list"
  enc_offset :: "32 word"

fun blob_offsets :: "32 word \<Rightarrow> byte list list \<Rightarrow> 32 word list" where
  "blob_offsets off [] = []"
| "blob_offsets off (b # bs) = off # blob_offsets (off + of_nat (length b)) bs"

definition EncodeSliceOfDynamicBytesContent :: "byte list list \<Rightarrow> byte list" where
  "EncodeSliceOfDynamicBytesContent blobs =
     concat (map (bytes_of 4) (blob_offsets (of_nat (4 * length blobs)) blobs)) @ concat blobs"

definition EncodeUint256 :: "U256 option \<Rightarrow> byte list" where
  "EncodeUint256 n = (case n of None \<Rightarrow> replicate 32 0 | Some v \<Rightarrow> bytes_of 32 v)"

fun EncodeOp ::
  "'w withdrawal_codec \<Rightarrow> 'w ExecutionPayload \<Rightarrow> 'w codec_op \<Rightarrow> encoder \<Rightarrow> encoder" where
  "EncodeOp W p (DefineStaticBytes n r) e = e\<lparr>enc_buf := enc_buf e @ deref r p\<rparr>"
| "EncodeOp W p (DefineUint64 r) e = e\<lparr>enc_buf := enc_buf e @ bytes_of 8 (deref r p)\<rparr>"
| "EncodeOp W p (DefineUint256 r) e = e\<lparr>enc_buf := enc_buf e @ EncodeUint256 (deref r p)\<rparr>"
| "EncodeOp W p (DefineDynamicBytesOffset r maxSize) e =
     \<lparr> enc_buf = enc_buf e @ bytes_of 4 (enc_offset e),
       enc_offset = enc_offset e + SizeDynamicBytes (deref r p) \<rparr>"
| "EncodeOp W p (DefineSliceOfDynamicBytesOffset r maxItems maxSize) e =
     \<lparr> enc_buf = enc_buf e @ bytes_of 4 (enc_offset e),
       enc_offset = enc_offset e + SizeSliceOfDynamicBytes (deref r p) \<rparr>"
| "EncodeOp W p (DefineSliceOfStaticObjectsOffset r maxItems) e =
     \<lparr> enc_buf = enc_buf e @ bytes_of 4 (enc_offset e),
       enc_offset = enc_offset e + SizeSliceOfStaticObjects W (deref r p) \<rparr>"
| "EncodeOp W p (DefineDynamicBytesContent r maxSize) e =
     e\<lparr>enc_buf := enc_buf e @ deref r p\<rparr>"
| "EncodeOp W p (DefineSliceOfDynamicBytesContent r maxItems maxSize) e =
     e\<lparr>enc_buf := enc_buf e @ EncodeSliceOfDynamicBytesContent (deref r p)\<rparr>"
| "EncodeOp W p (DefineSliceOfStaticObjectsContent r maxItems) e =
     e\<lparr>enc_buf := enc_buf e @ concat (map (wd_encode W) (slice_of (deref r p)))\<rparr>"

text \<open>
  The maxima that the schema declares, as a predicate on the record: an operation of the
  schema holds when the field it points at is within the maximum count and the maximum
  lengths that the operation carries. The encoder does not evaluate it; it is what the
  decoder accepts.
\<close>

fun within_capacity :: "'w ExecutionPayload \<Rightarrow> 'w codec_op \<Rightarrow> bool" where
  "within_capacity p (DefineDynamicBytesOffset r maxSize) = (length (deref r p) \<le> maxSize)"
| "within_capacity p (DefineSliceOfDynamicBytesOffset r maxItems maxSize) =
     (length (deref r p) \<le> maxItems \<and> list_all (\<lambda>blob. length blob \<le> maxSize) (deref r p))"
| "within_capacity p (DefineSliceOfStaticObjectsOffset r maxItems) =
     (length (slice_of (deref r p)) \<le> maxItems)"
| "within_capacity p (DefineDynamicBytesContent r maxSize) = (length (deref r p) \<le> maxSize)"
| "within_capacity p (DefineSliceOfDynamicBytesContent r maxItems maxSize) =
     (length (deref r p) \<le> maxItems \<and> list_all (\<lambda>blob. length blob \<le> maxSize) (deref r p))"
| "within_capacity p (DefineSliceOfStaticObjectsContent r maxItems) =
     (length (slice_of (deref r p)) \<le> maxItems)"
| "within_capacity p _ = True"

definition encode_stream ::
  "constants_pkg \<Rightarrow> 'w withdrawal_codec \<Rightarrow> 'w ExecutionPayload \<Rightarrow> byte list" where
  "encode_stream K W p =
     enc_buf (foldl (\<lambda>e d. EncodeOp W p d e)
                \<lparr> enc_buf = [], enc_offset = SizeSSZ W p True \<rparr> (DefineSSZ K))"

text \<open>
  Modelled from the spec: \<^verbatim>\<open>ssz.EncodeToBytes\<close> is missing from the sources. It walks the
  schema and writes into the buffer it was given, which \<^verbatim>\<open>MarshalSSZ\<close> sizes with the size
  accounting. No maximum is checked. The only failure is an output that does not have
  the length of the buffer, which takes a size accounting that has wrapped around
  \<^verbatim>\<open>uint32\<close>: the write then runs past the end of the buffer, which is a panic in Go and
  the error \<^verbatim>\<open>SizeMismatch\<close> here, with the buffer handed back as it was.
\<close>

definition EncodeToBytes ::
  "constants_pkg \<Rightarrow> 'w withdrawal_codec \<Rightarrow> byte list \<Rightarrow> 'w ExecutionPayload \<Rightarrow>
   byte list \<times> error option" where
  "EncodeToBytes K W buf p =
     (if length (encode_stream K W p) \<noteq> length buf then (buf, Some SizeMismatch)
      else (encode_stream K W p, None))"

text \<open>
  \<^verbatim>\<open>MarshalSSZ\<close> allocates a zeroed buffer of \<^verbatim>\<open>ssz.Size(p)\<close> bytes, lets the encoder fill
  it in place, and returns the buffer together with the encoder's error.
\<close>

definition MarshalSSZ ::
  "constants_pkg \<Rightarrow> 'w withdrawal_codec \<Rightarrow> 'w ExecutionPayload \<Rightarrow> byte list \<times> error option" where
  "MarshalSSZ K W p =
     (let buf = replicate (unat (ssz_Size W p)) 0
      in EncodeToBytes K W buf p)"

section \<open>SSZ: decoder\<close>

text \<open>
  Modelled from the spec: the decoder of the SSZ library and the function that runs it
  and then calls \<^verbatim>\<open>ValidateAfterDecodingSSZ\<close> are missing from the sources. After the
  spec's offset-table decoder: a fixed-size field is read at the cursor of the static
  region (\<^verbatim>\<open>TruncatedInput\<close> when the buffer ends before it); for a variable-size field
  the 4-byte little-endian offset is read there, and must lie within the buffer
  (\<^verbatim>\<open>OffsetOutOfBounds\<close>) and not before the previous offset (\<^verbatim>\<open>OffsetOutOfOrder\<close>). The
  previous offset of the first variable-size field is the size of the static region, so
  that an offset pointing into the static region is refused as out of order. The
  content of a variable-size field is the slice from its offset to the next offset, the
  last one running to the end of the buffer. A list of variable-size byte strings is
  decoded by the same algorithm within its slice, the first offset giving the number of
  elements; a list of static objects is cut into slices of the element size. A count or
  length above the declared maximum is \<^verbatim>\<open>CapacityExceeded\<close>. An empty slice is decoded
  as the empty list, which is assigned like any other: the decoder of the library never
  leaves a list of static objects nil, whatever the version of the record. Decoding
  fills a fresh record of the target version and ends with the post-decode validation.
\<close>

record 'w decoder =
  d_buf :: "byte list"
  d_pos :: nat
  d_offset :: nat
  d_offsets :: "nat list"
  d_obj :: "'w ExecutionPayload"

definition region_of :: "byte list \<Rightarrow> nat list \<Rightarrow> byte list" where
  "region_of buf offs =
     (case offs of
        [] \<Rightarrow> []
      | [start] \<Rightarrow> drop start buf
      | start # next # _ \<Rightarrow> take (next - start) (drop start buf))"

fun split_every :: "nat \<Rightarrow> nat \<Rightarrow> byte list \<Rightarrow> byte list list" where
  "split_every width 0 region = []"
| "split_every width (Suc count) region =
     take width region # split_every width count (drop width region)"

fun slices :: "byte list \<Rightarrow> nat list \<Rightarrow> byte list list" where
  "slices region [] = []"
| "slices region [start] = [drop start region]"
| "slices region (start # next # offs) =
     take (next - start) (drop start region) # slices region (next # offs)"

definition read_offset :: "byte list \<Rightarrow> nat" where
  "read_offset bs = unat (of_bytes bs :: 32 word)"

definition DecodeSliceOfDynamicBytesContent ::
  "byte list \<Rightarrow> nat \<Rightarrow> nat \<Rightarrow> error + byte list list" where
  "DecodeSliceOfDynamicBytesContent region maxItems maxSize =
     (if region = [] then Inr []
      else if length region < 4 then Inl TruncatedInput
      else
        let first = read_offset (take 4 region) in
        if first = 0 \<or> first mod 4 \<noteq> 0 \<or> first > length region then Inl OffsetOutOfBounds
        else
          let count = first div 4 in
          if count > maxItems then Inl CapacityExceeded
          else
            let offs = map read_offset (split_every 4 count region) in
            if \<not> list_all (\<lambda>off. off \<le> length region) offs then Inl OffsetOutOfBounds
            else if \<not> sorted offs then Inl OffsetOutOfOrder
            else
              let items = slices region offs in
              if \<not> list_all (\<lambda>blob. length blob \<le> maxSize) items then Inl CapacityExceeded
              else Inr items)"

fun decode_objects :: "'w withdrawal_codec \<Rightarrow> byte list list \<Rightarrow> error + 'w list" where
  "decode_objects W [] = Inr []"
| "decode_objects W (s # ss) =
     (case wd_decode W s of
        Inl err \<Rightarrow> Inl err
      | Inr w \<Rightarrow>
          (case decode_objects W ss of
             Inl err \<Rightarrow> Inl err
           | Inr ws \<Rightarrow> Inr (w # ws)))"

definition DecodeSliceOfStaticObjectsContent ::
  "'w withdrawal_codec \<Rightarrow> byte list \<Rightarrow> nat \<Rightarrow> error + 'w list" where
  "DecodeSliceOfStaticObjectsContent W region maxItems =
     (if region = [] then Inr []
      else
        let width = unat (wd_SizeSSZ W) in
        if width = 0 \<or> length region mod width \<noteq> 0 then Inl TruncatedInput
        else
          let count = length region div width in
          if count > maxItems then Inl CapacityExceeded
          else decode_objects W (split_every width count region))"

definition read_static ::
  "nat \<Rightarrow> 'w decoder \<Rightarrow> (byte list \<Rightarrow> 'w ExecutionPayload \<Rightarrow> 'w ExecutionPayload) \<Rightarrow>
   error + 'w decoder" where
  "read_static n d store =
     (if d_pos d + n > length (d_buf d) then Inl TruncatedInput
      else Inr (d\<lparr> d_pos := d_pos d + n,
                   d_obj := store (take n (drop (d_pos d) (d_buf d))) (d_obj d) \<rparr>))"

definition read_field_offset :: "'w decoder \<Rightarrow> error + 'w decoder" where
  "read_field_offset d =
     (if d_pos d + 4 > length (d_buf d) then Inl TruncatedInput
      else
        let off = read_offset (take 4 (drop (d_pos d) (d_buf d))) in
        if off > length (d_buf d) then Inl OffsetOutOfBounds
        else if off < d_offset d then Inl OffsetOutOfOrder
        else Inr (d\<lparr> d_pos := d_pos d + 4, d_offset := off,
                     d_offsets := d_offsets d @ [off] \<rparr>))"

fun DecodeOp :: "'w withdrawal_codec \<Rightarrow> 'w codec_op \<Rightarrow> 'w decoder \<Rightarrow> error + 'w decoder" where
  "DecodeOp W (DefineStaticBytes n r) d = read_static n d (assign r)"
| "DecodeOp W (DefineUint64 r) d = read_static 8 d (\<lambda>bs. assign r (of_bytes bs))"
| "DecodeOp W (DefineUint256 r) d = read_static 32 d (\<lambda>bs. assign r (Some (of_bytes bs)))"
| "DecodeOp W (DefineDynamicBytesOffset r maxSize) d = read_field_offset d"
| "DecodeOp W (DefineSliceOfDynamicBytesOffset r maxItems maxSize) d = read_field_offset d"
| "DecodeOp W (DefineSliceOfStaticObjectsOffset r maxItems) d = read_field_offset d"
| "DecodeOp W (DefineDynamicBytesContent r maxSize) d =
     (let region = region_of (d_buf d) (d_offsets d) in
      if length region > maxSize then Inl CapacityExceeded
      else Inr (d\<lparr> d_offsets := tl (d_offsets d), d_obj := assign r region (d_obj d) \<rparr>))"
| "DecodeOp W (DefineSliceOfDynamicBytesContent r maxItems maxSize) d =
     (let region = region_of (d_buf d) (d_offsets d) in
      case DecodeSliceOfDynamicBytesContent region maxItems maxSize of
        Inl err \<Rightarrow> Inl err
      | Inr blobs \<Rightarrow>
          Inr (d\<lparr> d_offsets := tl (d_offsets d), d_obj := assign r blobs (d_obj d) \<rparr>))"
| "DecodeOp W (DefineSliceOfStaticObjectsContent r maxItems) d =
     (let region = region_of (d_buf d) (d_offsets d) in
      case DecodeSliceOfStaticObjectsContent W region maxItems of
        Inl err \<Rightarrow> Inl err
      | Inr objects \<Rightarrow>
          Inr (d\<lparr> d_offsets := tl (d_offsets d),
                  d_obj := assign r (Some objects) (d_obj d) \<rparr>))"

fun DecodeOps :: "'w withdrawal_codec \<Rightarrow> 'w codec_op list \<Rightarrow> 'w decoder \<Rightarrow> error + 'w decoder" where
  "DecodeOps W [] d = Inr d"
| "DecodeOps W (c # cs) d =
     (case DecodeOp W c d of
        Inl err \<Rightarrow> Inl err
      | Inr d \<Rightarrow> DecodeOps W cs d)"

text \<open>
  Modelled from the spec: \<^verbatim>\<open>ssz.DecodeFromBytes\<close> is missing from the sources. It walks the
  schema over the buffer and fills the record it is given. The offset that the first
  variable-size field is compared with is the size of the static region of the record,
  \<^verbatim>\<open>SizeSSZ(fixed = true)\<close>.
\<close>

definition DecodeFromBytes ::
  "constants_pkg \<Rightarrow> 'w withdrawal_codec \<Rightarrow> byte list \<Rightarrow> 'w ExecutionPayload \<Rightarrow>
   error + 'w ExecutionPayload" where
  "DecodeFromBytes K W buf p =
     (case DecodeOps W (DefineSSZ K)
             \<lparr> d_buf = buf, d_pos = 0, d_offset = unat (SizeSSZ W p True), d_offsets = [],
               d_obj = p \<rparr> of
        Inl err \<Rightarrow> Inl err
      | Inr d \<Rightarrow> Inr (d_obj d))"

text \<open>
  Modelled from the spec: the function that decodes an \<^verbatim>\<open>ExecutionPayload\<close> is missing from
  the sources. It decodes into a fresh record of the target version and then invokes the
  post-decode validation, whose error, if any, is the result.
\<close>

definition UnmarshalSSZ ::
  "version_pkg \<Rightarrow> constants_pkg \<Rightarrow> 'w withdrawal_codec \<Rightarrow> Version \<Rightarrow> byte list \<Rightarrow>
   error + 'w ExecutionPayload" where
  "UnmarshalSSZ V K W forkVersion buf =
     (let p = NewEmptyExecutionPayloadWithVersion V forkVersion in
      case DecodeFromBytes K W buf p of
        Inl err \<Rightarrow> Inl err
      | Inr p \<Rightarrow>
          (case ValidateAfterDecodingSSZ V p of
             (p, None) \<Rightarrow> Inr p
           | (p, Some err) \<Rightarrow> Inl err))"

text \<open>
  What decoding makes of an encoded record: the version is the target version, a nil
  256-bit integer has become zero, and a nil list of withdrawals has become the empty
  list, at every version.
\<close>

definition decoded_form :: "Version \<Rightarrow> 'w ExecutionPayload \<Rightarrow> 'w ExecutionPayload" where
  "decoded_form forkVersion p =
     p\<lparr> Versionable := forkVersion,
        BaseFeePerGas := Some (case BaseFeePerGas p of None \<Rightarrow> 0 | Some v \<Rightarrow> v),
        Withdrawals := Some (slice_of (Withdrawals p)) \<rparr>"

text \<open>
  What the round trip needs from the codec of a withdrawal, which is a parameter: every
  withdrawal is encoded in exactly the fixed element size, which is not zero, and is
  decoded back from its encoding.
\<close>

definition withdrawal_codec_ok :: "'w withdrawal_codec \<Rightarrow> 'w \<Rightarrow> bool" where
  "withdrawal_codec_ok W w \<longleftrightarrow>
     0 < unat (wd_SizeSSZ W) \<and> length (wd_encode W w) = unat (wd_SizeSSZ W)
     \<and> wd_decode W (wd_encode W w) = Inr w"

subsection \<open>The layout of an encoded record\<close>

text \<open>
  The static region that the encoder writes, as a function of the three offsets, and the
  offsets of the elements of a list of byte strings as natural numbers. Both serve the
  proofs about the codec only.
\<close>

definition static_region :: "'w withdrawal_codec \<Rightarrow> 'w ExecutionPayload \<Rightarrow> 32 word \<Rightarrow> 32 word \<Rightarrow> 32 word \<Rightarrow> byte list" where
  "static_region W p o1 o2 o3 =
     bytes_of 32 (ParentHash p) @ bytes_of 20 (FeeRecipient p) @ bytes_of 32 (StateRoot p) @
     bytes_of 32 (ReceiptsRoot p) @ bytes_of 256 (LogsBloom p) @ bytes_of 32 (Random p) @
     bytes_of 8 (Number p) @ bytes_of 8 (GasLimit p) @ bytes_of 8 (GasUsed p) @
     bytes_of 8 (Timestamp p) @ bytes_of 4 o1 @ EncodeUint256 (BaseFeePerGas p) @
     bytes_of 32 (BlockHash p) @ bytes_of 4 o2 @ bytes_of 4 o3 @
     bytes_of 8 (BlobGasUsed p) @ bytes_of 8 (ExcessBlobGas p)"

fun nat_offsets :: "nat \<Rightarrow> byte list list \<Rightarrow> nat list" where
  "nat_offsets off [] = []"
| "nat_offsets off (b # bs) = off # nat_offsets (off + length b) bs"

section \<open>Hash-tree-root\<close>

subsection \<open>Chunks and Merkle trees\<close>

text \<open>
  Modelled from the spec: the Merkle tree that both hashing libraries build is missing
  from the sources. The compression function is the external collaborator of the spec
  and a parameter \<open>H\<close>: it maps the 64 bytes of two chunks to a 32-byte digest. A
  chunk is 32 bytes; content that does not fill its last chunk is padded with zero
  bytes. The tree over a list of chunks has the depth that the declared capacity fixes
  (the least \<open>d\<close> with \<open>limit \<le> 2 ^ d\<close>), unused leaves are zero chunks, and an
  empty subtree is the zero hash of its depth. A length mix-in hashes a root with the
  count, written little-endian and padded with zero bytes to 32 bytes.
\<close>

type_synonym hashfn = "byte list \<Rightarrow> Root"

definition zero_chunk :: "byte list" where
  "zero_chunk = replicate 32 0"

definition pad32 :: "byte list \<Rightarrow> byte list" where
  "pad32 b = b @ (if length b mod 32 \<noteq> 0 then replicate (32 - length b mod 32) 0 else [])"

fun chunks :: "byte list \<Rightarrow> byte list list" where
  "chunks [] = []"
| "chunks (b # bs) = pad32 (take 32 (b # bs)) # chunks (drop 31 bs)"

fun zero_hash :: "hashfn \<Rightarrow> nat \<Rightarrow> byte list" where
  "zero_hash H 0 = zero_chunk"
| "zero_hash H (Suc d) = (let z = zero_hash H d in bytes_of 32 (H (z @ z)))"

fun merkle_tree :: "hashfn \<Rightarrow> nat \<Rightarrow> byte list list \<Rightarrow> byte list" where
  "merkle_tree H 0 cs = (case cs of [] \<Rightarrow> zero_chunk | c # _ \<Rightarrow> c)"
| "merkle_tree H (Suc d) cs =
     (if cs = [] then zero_hash H (Suc d)
      else bytes_of 32 (H (merkle_tree H d (take (2 ^ d) cs) @ merkle_tree H d (drop (2 ^ d) cs))))"

fun tree_depth :: "nat \<Rightarrow> nat" where
  "tree_depth n = (if n \<le> 1 then 0 else Suc (tree_depth ((n + 1) div 2)))"

declare tree_depth.simps [simp del]

definition merkleize :: "hashfn \<Rightarrow> nat \<Rightarrow> byte list list \<Rightarrow> byte list" where
  "merkleize H limit cs = merkle_tree H (tree_depth limit) cs"

definition mix_in_length :: "hashfn \<Rightarrow> byte list \<Rightarrow> nat \<Rightarrow> byte list" where
  "mix_in_length H root num =
     bytes_of 32 (H (root @ bytes_of 8 (of_nat num :: 64 word) @ replicate 24 0))"

subsection \<open>The schema-driven hasher\<close>

text \<open>
  Modelled from the spec: \<^verbatim>\<open>ssz.HashConcurrent\<close> and what each definition of the schema
  does while hashing are missing from the sources. After the spec's Merkleizer: every
  field gives one leaf, in declaration order. A fixed-size field of at most 32 bytes is
  its bytes padded to a chunk, a longer one the root of the tree over its chunks; an
  integer is its little-endian bytes padded to a chunk. A variable byte field of maximum
  length \<open>M\<close> is the root of the tree over its chunks with capacity \<open>\<lceil>M / 32\<rceil>\<close>, mixed
  with its byte length. A list of maximum count \<open>N\<close> is the root of the tree over the
  roots of its elements with capacity \<open>N\<close>, mixed with its element count. The record is
  the tree over its leaves, padded to the next power of two, with no mix-in. The parts
  of the schema that define the dynamic content add no leaf. The root of a withdrawal
  is the parameter \<open>wd_root\<close>. Subtrees have no data dependency on one another, so the
  concurrent hasher computes the function below.
\<close>

definition hash_static_bytes :: "hashfn \<Rightarrow> byte list \<Rightarrow> byte list" where
  "hash_static_bytes H b =
     (if length b \<le> 32 then pad32 b else merkleize H ((length b + 31) div 32) (chunks b))"

definition hash_dynamic_bytes :: "hashfn \<Rightarrow> nat \<Rightarrow> byte list \<Rightarrow> byte list" where
  "hash_dynamic_bytes H maxSize blob =
     mix_in_length H (merkleize H ((maxSize + 31) div 32) (chunks blob)) (length blob)"

fun HashOp ::
  "hashfn \<Rightarrow> ('w \<Rightarrow> Root) \<Rightarrow> 'w ExecutionPayload \<Rightarrow> 'w codec_op \<Rightarrow> byte list list" where
  "HashOp H wd_root p (DefineStaticBytes n r) = [hash_static_bytes H (deref r p)]"
| "HashOp H wd_root p (DefineUint64 r) = [pad32 (bytes_of 8 (deref r p))]"
| "HashOp H wd_root p (DefineUint256 r) = [EncodeUint256 (deref r p)]"
| "HashOp H wd_root p (DefineDynamicBytesOffset r maxSize) =
     [hash_dynamic_bytes H maxSize (deref r p)]"
| "HashOp H wd_root p (DefineSliceOfDynamicBytesOffset r maxItems maxSize) =
     [mix_in_length H
        (merkleize H maxItems (map (hash_dynamic_bytes H maxSize) (deref r p)))
        (length (deref r p))]"
| "HashOp H wd_root p (DefineSliceOfStaticObjectsOffset r maxItems) =
     [mix_in_length H
        (merkleize H maxItems (map (\<lambda>w. bytes_of 32 (wd_root w)) (slice_of (deref r p))))
        (length (slice_of (deref r p)))]"
| "HashOp H wd_root p (DefineDynamicBytesContent r maxSize) = []"
| "HashOp H wd_root p (DefineSliceOfDynamicBytesContent r maxItems maxSize) = []"
| "HashOp H wd_root p (DefineSliceOfStaticObjectsContent r maxItems) = []"

text \<open>
  Modelled from the spec: \<^verbatim>\<open>ssz.HashConcurrent\<close> is missing from the sources. The root of
  the record is the root of the tree over the leaves of its fields.
\<close>

definition ssz_HashConcurrent ::
  "hashfn \<Rightarrow> ('w \<Rightarrow> Root) \<Rightarrow> constants_pkg \<Rightarrow> 'w ExecutionPayload \<Rightarrow> Root" where
  "ssz_HashConcurrent H wd_root K p =
     (let leaves = concat (map (HashOp H wd_root p) (DefineSSZ K))
      in of_bytes (merkleize H (length leaves) leaves))"

definition HashTreeRoot ::
  "hashfn \<Rightarrow> ('w \<Rightarrow> Root) \<Rightarrow> constants_pkg \<Rightarrow> 'w ExecutionPayload \<Rightarrow> Root" where
  "HashTreeRoot H wd_root K p = ssz_HashConcurrent H wd_root K p"

subsection \<open>The streaming hasher\<close>

text \<open>
  Modelled from the spec: the \<^verbatim>\<open>fastssz.HashWalker\<close> that \<^verbatim>\<open>HashTreeRootWith\<close> drives is
  missing from the sources. It is the streaming hasher of the spec: it keeps one byte
  buffer; a field appends its chunk-padded bytes; \<^verbatim>\<open>Index\<close> marks the current end of the
  buffer; \<^verbatim>\<open>Merkleize\<close> replaces everything after a mark by the root of the tree over it
  (the capacity being the number of chunks found), and \<^verbatim>\<open>MerkleizeWithMixin\<close> first pads
  the buffer to a chunk boundary, builds the tree with the given capacity, and mixes
  the given count in. \<^verbatim>\<open>HashRoot\<close> reads the digest once a single chunk is left.
  No operation of the hasher returns an error. \<^verbatim>\<open>HashTreeRootWith\<close> checks every length
  against its maximum before it hands the content to the hasher, so what the hasher
  would do with more chunks than the capacity allows is left out.
\<close>

record hasher =
  h_buf :: "byte list"

definition Index :: "hasher \<Rightarrow> nat" where
  "Index hh = length (h_buf hh)"

definition Append :: "byte list \<Rightarrow> hasher \<Rightarrow> hasher" where
  "Append b hh = hh\<lparr>h_buf := h_buf hh @ b\<rparr>"

definition AppendBytes32 :: "byte list \<Rightarrow> hasher \<Rightarrow> hasher" where
  "AppendBytes32 b hh = hh\<lparr>h_buf := h_buf hh @ pad32 b\<rparr>"

definition FillUpTo32 :: "hasher \<Rightarrow> hasher" where
  "FillUpTo32 hh = hh\<lparr>h_buf := pad32 (h_buf hh)\<rparr>"

definition merkleizeImpl :: "hashfn \<Rightarrow> byte list \<Rightarrow> nat \<Rightarrow> byte list" where
  "merkleizeImpl H input limit =
     (let count = (length input + 31) div 32;
          limit = (if limit = 0 then count else limit)
      in merkleize H limit (chunks input))"

definition Merkleize :: "hashfn \<Rightarrow> nat \<Rightarrow> hasher \<Rightarrow> hasher" where
  "Merkleize H indx hh =
     (let input = drop indx (h_buf hh);
          input = merkleizeImpl H input 0
      in hh\<lparr>h_buf := take indx (h_buf hh) @ input\<rparr>)"

definition MerkleizeWithMixin :: "hashfn \<Rightarrow> nat \<Rightarrow> nat \<Rightarrow> nat \<Rightarrow> hasher \<Rightarrow> hasher" where
  "MerkleizeWithMixin H indx num limit hh =
     (let hh = FillUpTo32 hh;
          input = drop indx (h_buf hh);
          input = merkleizeImpl H input limit;
          input = mix_in_length H input num
      in hh\<lparr>h_buf := take indx (h_buf hh) @ input\<rparr>)"

definition PutUint64 :: "U64 \<Rightarrow> hasher \<Rightarrow> hasher" where
  "PutUint64 i hh = AppendBytes32 (bytes_of 8 i) hh"

definition PutBytes :: "hashfn \<Rightarrow> byte list \<Rightarrow> hasher \<Rightarrow> hasher" where
  "PutBytes H b hh =
     (if length b \<le> 32 then AppendBytes32 b hh
      else
        let indx = Index hh;
            hh = AppendBytes32 b hh
        in Merkleize H indx hh)"

definition HashRoot :: "hasher \<Rightarrow> error + Root" where
  "HashRoot hh =
     (if length (h_buf hh) \<noteq> 32 then Inl (OtherError ''expected 32 byte size'')
      else Inr (of_bytes (h_buf hh)))"

text \<open>
  Two methods that \<^verbatim>\<open>HashTreeRootWith\<close> calls belong to types declared outside the
  sources at hand and are parameters: \<^verbatim>\<open>MarshalSSZ\<close> of the 256-bit integer behind
  \<^verbatim>\<open>BaseFeePerGas\<close> (called on a pointer that may be nil) and \<^verbatim>\<open>HashTreeRootWith\<close> of a
  withdrawal.
\<close>

record 'w callees =
  U256_MarshalSSZ :: "U256 option \<Rightarrow> error + byte list"
  wd_HashTreeRootWith :: "'w \<Rightarrow> hasher \<Rightarrow> error + hasher"

text \<open>
  \<^verbatim>\<open>HashTreeRootWith\<close>, block by block. The loop over the transactions and the loop
  over the withdrawals are recursions over the list; a \<^verbatim>\<open>return\<close> inside a loop ends
  the function with that error.
\<close>

fun transactions_loop :: "hashfn \<Rightarrow> byte list list \<Rightarrow> hasher \<Rightarrow> error + hasher" where
  "transactions_loop H [] hh = Inr hh"
| "transactions_loop H (elem # rest) hh =
     (let elemIndx = Index hh;
          byteLen = length elem
      in if byteLen > 1073741824 then Inl ErrIncorrectListSize
         else
           let hh = AppendBytes32 elem hh;
               hh = MerkleizeWithMixin H elemIndx byteLen ((1073741824 + 31) div 32) hh
           in transactions_loop H rest hh)"

fun withdrawals_loop :: "'w callees \<Rightarrow> 'w list \<Rightarrow> hasher \<Rightarrow> error + hasher" where
  "withdrawals_loop C [] hh = Inr hh"
| "withdrawals_loop C (elem # rest) hh =
     (case wd_HashTreeRootWith C elem hh of
        Inl err \<Rightarrow> Inl err
      | Inr hh \<Rightarrow> withdrawals_loop C rest hh)"

definition field_ExtraData :: "hashfn \<Rightarrow> 'w ExecutionPayload \<Rightarrow> hasher \<Rightarrow> error + hasher" where
  "field_ExtraData H p hh =
     (let elemIndx = Index hh;
          byteLen = length (ExtraData p)
      in if byteLen > 32 then Inl ErrIncorrectListSize
         else
           let hh = Append (ExtraData p) hh;
               hh = MerkleizeWithMixin H elemIndx byteLen ((32 + 31) div 32) hh
           in Inr hh)"

definition field_Transactions :: "hashfn \<Rightarrow> 'w ExecutionPayload \<Rightarrow> hasher \<Rightarrow> error + hasher" where
  "field_Transactions H p hh =
     (let subIndx = Index hh;
          num = length (Transactions p)
      in if num > 1048576 then Inl ErrIncorrectListSize
         else
           case transactions_loop H (Transactions p) hh of
             Inl err \<Rightarrow> Inl err
           | Inr hh \<Rightarrow> Inr (MerkleizeWithMixin H subIndx num 1048576 hh))"

definition field_Withdrawals ::
  "hashfn \<Rightarrow> 'w callees \<Rightarrow> 'w ExecutionPayload \<Rightarrow> hasher \<Rightarrow> error + hasher" where
  "field_Withdrawals H C p hh =
     (let subIndx = Index hh;
          num = length (slice_of (Withdrawals p))
      in if num > 16 then Inl ErrIncorrectListSize
         else
           case withdrawals_loop C (slice_of (Withdrawals p)) hh of
             Inl err \<Rightarrow> Inl err
           | Inr hh \<Rightarrow> Inr (MerkleizeWithMixin H subIndx num 16 hh))"

definition fields_0_to_9 :: "hashfn \<Rightarrow> 'w ExecutionPayload \<Rightarrow> hasher \<Rightarrow> hasher" where
  "fields_0_to_9 H p hh =
     (let hh = PutBytes H (bytes_of 32 (ParentHash p)) hh;
          hh = PutBytes H (bytes_of 20 (FeeRecipient p)) hh;
          hh = PutBytes H (bytes_of 32 (StateRoot p)) hh;
          hh = PutBytes H (bytes_of 32 (ReceiptsRoot p)) hh;
          hh = PutBytes H (bytes_of 256 (LogsBloom p)) hh;
          hh = PutBytes H (bytes_of 32 (Random p)) hh;
          hh = PutUint64 (Number p) hh;
          hh = PutUint64 (GasLimit p) hh;
          hh = PutUint64 (GasUsed p) hh;
          hh = PutUint64 (Timestamp p) hh
      in hh)"

definition HashTreeRootWith ::
  "hashfn \<Rightarrow> 'w callees \<Rightarrow> 'w ExecutionPayload \<Rightarrow> hasher \<Rightarrow> error + hasher" where
  "HashTreeRootWith H C p hh =
     (let indx = Index hh;
          hh = fields_0_to_9 H p hh
      in case field_ExtraData H p hh of
           Inl err \<Rightarrow> Inl err
         | Inr hh \<Rightarrow>
             (case U256_MarshalSSZ C (BaseFeePerGas p) of
                Inl err \<Rightarrow> Inl err
              | Inr bz \<Rightarrow>
                  let hh = PutBytes H bz hh;
                      hh = PutBytes H (bytes_of 32 (BlockHash p)) hh
                  in case field_Transactions H p hh of
                       Inl err \<Rightarrow> Inl err
                     | Inr hh \<Rightarrow>
                         (case field_Withdrawals H C p hh of
                            Inl err \<Rightarrow> Inl err
                          | Inr hh \<Rightarrow>
                              let hh = PutUint64 (BlobGasUsed p) hh;
                                  hh = PutUint64 (ExcessBlobGas p) hh;
                                  hh = Merkleize H indx hh
                              in Inr hh)))"

text \<open>The declared maxima, as \<^verbatim>\<open>HashTreeRootWith\<close> writes them.\<close>

definition exceeds_maximum :: "'w ExecutionPayload \<Rightarrow> bool" where
  "exceeds_maximum p =
     (length (ExtraData p) > 32
      \<or> length (Transactions p) > 1048576
      \<or> list_ex (\<lambda>tx. length tx > 1073741824) (Transactions p)
      \<or> length (slice_of (Withdrawals p)) > 16)"

text \<open>
  What the agreement of the two hashers needs from the withdrawal type, whose two hashing
  methods are parameters: on a hasher whose buffer ends on a chunk boundary, the
  streaming method, when it succeeds, appends the root that the schema-driven method
  computes.
\<close>

definition withdrawal_hashers_agree :: "'w callees \<Rightarrow> ('w \<Rightarrow> Root) \<Rightarrow> 'w \<Rightarrow> bool" where
  "withdrawal_hashers_agree C wd_root w \<longleftrightarrow>
     (\<forall>hh hh'. length (h_buf hh) mod 32 = 0 \<longrightarrow> wd_HashTreeRootWith C w hh = Inr hh' \<longrightarrow>
        h_buf hh' = h_buf hh @ bytes_of 32 (wd_root w))"

subsection \<open>A concrete instance of the parameters\<close>

text \<open>
  One instance of every parameter, for evaluating the functions at concrete records: five
  increasing fork versions, the maxima that \<^verbatim>\<open>HashTreeRootWith\<close> writes as literals, a
  list element that is a 32-bit number encoded in 4 bytes, a hash function that sums
  the bytes it is given, and callees that never fail.
\<close>

definition example_forks :: version_pkg where
  "example_forks = \<lparr>Capella = 3, Deneb = 4, Deneb1 = 5, Electra = 6, Electra1 = 7\<rparr>"

definition example_constants :: constants_pkg where
  "example_constants = \<lparr>MaxTxsPerPayload = 1048576, MaxBytesPerTx = 1073741824\<rparr>"

definition example_codec :: "(32 word) withdrawal_codec" where
  "example_codec =
     \<lparr> wd_SizeSSZ = 4, wd_encode = bytes_of 4,
       wd_decode = (\<lambda>bs. if length bs = 4 then Inr (of_bytes bs) else Inl TruncatedInput) \<rparr>"

definition example_hash :: hashfn where
  "example_hash bs = ucast (sum_list bs)"

definition example_wd_root :: "32 word \<Rightarrow> Root" where
  "example_wd_root w = ucast w"

definition example_callees :: "(32 word) callees" where
  "example_callees =
     \<lparr> U256_MarshalSSZ = (\<lambda>n. Inr (EncodeUint256 n)),
       wd_HashTreeRootWith = (\<lambda>w hh. Inr (AppendBytes32 (bytes_of 32 (example_wd_root w)) hh)) \<rparr>"

definition example_payload :: "(32 word) ExecutionPayload" where
  "example_payload =
     (NewEmptyExecutionPayloadWithVersion example_forks 4)
       \<lparr> Number := 7, ExtraData := [1, 2, 3], Transactions := [[10, 20], []],
         Withdrawals := Some [5] \<rparr>"

section \<open>JSON\<close>

text \<open>
  \<^verbatim>\<open>UnmarshalJSON\<close> first lets \<^verbatim>\<open>json.Unmarshal\<close> decode the input into a local struct whose
  fields are pointers (a slice for \<^verbatim>\<open>transactions\<close> and \<^verbatim>\<open>withdrawals\<close>): a key that is
  absent from the input, or whose value is \<^verbatim>\<open>null\<close>, leaves the pointer or slice nil.
  The JSON library is not part of the sources at hand and \<^verbatim>\<open>json.Unmarshal\<close> is a
  parameter. The receiver is mutated field by field, so the model returns the record as
  it stands when the function returns, together with the error.
\<close>

record 'w dec_ExecutionPayload =
  dec_ParentHash :: "ExecutionHash option"
  dec_FeeRecipient :: "ExecutionAddress option"
  dec_StateRoot :: "Bytes32 option"
  dec_ReceiptsRoot :: "Bytes32 option"
  dec_LogsBloom :: "B256 option"
  dec_Random :: "Bytes32 option"
  dec_Number :: "U64 option"
  dec_GasLimit :: "U64 option"
  dec_GasUsed :: "U64 option"
  dec_Timestamp :: "U64 option"
  dec_ExtraData :: "byte list option"
  dec_BaseFeePerGas :: "U256 option"
  dec_BlockHash :: "ExecutionHash option"
  dec_Transactions :: "byte list list option"
  dec_Withdrawals :: "'w list option"
  dec_BlobGasUsed :: "U64 option"
  dec_ExcessBlobGas :: "U64 option"

text \<open>
  The loop \<^verbatim>\<open>for k, v := range dec.Transactions { p.Transactions[k] = v }\<close> over a slice
  made with the length of \<^verbatim>\<open>dec.Transactions\<close>.
\<close>

definition copy_transactions :: "byte list list \<Rightarrow> byte list list" where
  "copy_transactions txs =
     foldl (\<lambda>dst (k, v). dst[k := v]) (replicate (length txs) []) (zip [0..<length txs] txs)"

definition UnmarshalJSON ::
  "(byte list \<Rightarrow> error + 'w dec_ExecutionPayload) \<Rightarrow> 'w ExecutionPayload \<Rightarrow> byte list \<Rightarrow>
   'w ExecutionPayload \<times> error option" where
  "UnmarshalJSON json_Unmarshal p input =
    (case json_Unmarshal input of
      Inl err \<Rightarrow> (p, Some err)
    | Inr dec \<Rightarrow>
    (case dec_ParentHash dec of
      None \<Rightarrow> (p, Some (MissingRequiredField ''parentHash''))
    | Some v \<Rightarrow> let p = p\<lparr>ParentHash := v\<rparr> in
    (case dec_FeeRecipient dec of
      None \<Rightarrow> (p, Some (MissingRequiredField ''feeRecipient''))
    | Some v \<Rightarrow> let p = p\<lparr>FeeRecipient := v\<rparr> in
    (case dec_StateRoot dec of
      None \<Rightarrow> (p, Some (MissingRequiredField ''stateRoot''))
    | Some v \<Rightarrow> let p = p\<lparr>StateRoot := v\<rparr> in
    (case dec_ReceiptsRoot dec of
      None \<Rightarrow> (p, Some (MissingRequiredField ''receiptsRoot''))
    | Some v \<Rightarrow> let p = p\<lparr>ReceiptsRoot := v\<rparr> in
    (case dec_LogsBloom dec of
      None \<Rightarrow> (p, Some (MissingRequiredField ''logsBloom''))
    | Some v \<Rightarrow> let p = p\<lparr>LogsBloom := v\<rparr> in
    (case dec_Random dec of
      None \<Rightarrow> (p, Some (MissingRequiredField ''prevRandao''))
    | Some v \<Rightarrow> let p = p\<lparr>Random := v\<rparr> in
    (case dec_Number dec of
      None \<Rightarrow> (p, Some (MissingRequiredField ''blockNumber''))
    | Some v \<Rightarrow> let p = p\<lparr>Number := v\<rparr> in
    (case dec_GasLimit dec of
      None \<Rightarrow> (p, Some (MissingRequiredField ''gasLimit''))
    | Some v \<Rightarrow> let p = p\<lparr>GasLimit := v\<rparr> in
    (case dec_GasUsed dec of
      None \<Rightarrow> (p, Some (MissingRequiredField ''gasUsed''))
    | Some v \<Rightarrow> let p = p\<lparr>GasUsed := v\<rparr> in
    (case dec_Timestamp dec of
      None \<Rightarrow> (p, Some (MissingRequiredField ''timestamp''))
    | Some v \<Rightarrow> let p = p\<lparr>Timestamp := v\<rparr> in
    (case dec_ExtraData dec of
      None \<Rightarrow> (p, Some (MissingRequiredField ''extraData''))
    | Some v \<Rightarrow> let p = p\<lparr>ExtraData := v\<rparr> in
    (case dec_BaseFeePerGas dec of
      None \<Rightarrow> (p, Some (MissingRequiredField ''baseFeePerGas''))
    | Some v \<Rightarrow> let p = p\<lparr>BaseFeePerGas := Some v\<rparr> in
    (case dec_BlockHash dec of
      None \<Rightarrow> (p, Some (MissingRequiredField ''blockHash''))
    | Some v \<Rightarrow> let p = p\<lparr>BlockHash := v\<rparr> in
    (case dec_Transactions dec of
      None \<Rightarrow> (p, Some (MissingRequiredField ''transactions''))
    | Some txs \<Rightarrow> let p = p\<lparr>Transactions := copy_transactions txs\<rparr> in
     (let p = (case dec_Withdrawals dec of None \<Rightarrow> p | Some ws \<Rightarrow> p\<lparr>Withdrawals := Some ws\<rparr>);
          p = (case dec_BlobGasUsed dec of None \<Rightarrow> p | Some v \<Rightarrow> p\<lparr>BlobGasUsed := v\<rparr>);
          p = (case dec_ExcessBlobGas dec of None \<Rightarrow> p | Some v \<Rightarrow> p\<lparr>ExcessBlobGas := v\<rparr>)
      in (p, None)))))))))))))))))"

text \<open>The fourteen required keys, in the order in which \<^verbatim>\<open>UnmarshalJSON\<close> checks them.\<close>

definition required_missing :: "'w dec_ExecutionPayload \<Rightarrow> bool" where
  "required_missing dec =
     (dec_ParentHash dec = None \<or> dec_FeeRecipient dec = None \<or> dec_StateRoot dec = None
      \<or> dec_ReceiptsRoot dec = None \<or> dec_LogsBloom dec = None \<or> dec_Random dec = None
      \<or> dec_Number dec = None \<or> dec_GasLimit dec = None \<or> dec_GasUsed dec = None
      \<or> dec_Timestamp dec = None \<or> dec_ExtraData dec = None \<or> dec_BaseFeePerGas dec = None
      \<or> dec_BlockHash dec = None \<or> dec_Transactions dec = None)"

definition example_dec :: "(32 word) dec_ExecutionPayload" where
  "example_dec =
     \<lparr> dec_ParentHash = Some 1, dec_FeeRecipient = Some 2, dec_StateRoot = Some 3,
       dec_ReceiptsRoot = Some 4, dec_LogsBloom = Some 5, dec_Random = Some 6,
       dec_Number = Some 7, dec_GasLimit = Some 8, dec_GasUsed = Some 9,
       dec_Timestamp = Some 10, dec_ExtraData = Some [11], dec_BaseFeePerGas = Some 12,
       dec_BlockHash = Some 13, dec_Transactions = Some [[14], [15, 16]],
       dec_Withdrawals = None, dec_BlobGasUsed = None, dec_ExcessBlobGas = Some 17 \<rparr>"

section \<open>Construction, validation and projection: theorems\<close>

lemmas getters_defs =
  GetForkVersion_def GetParentHash_def GetFeeRecipient_def GetStateRoot_def
  GetReceiptsRoot_def GetLogsBloom_def GetPrevRandao_def GetNumber_def GetGasLimit_def
  GetGasUsed_def GetTimestamp_def GetExtraData_def GetBaseFeePerGas_def GetBlockHash_def
  GetTransactions_def GetWithdrawals_def GetBlobGasUsed_def GetExcessBlobGas_def


text \<open>
  C7. For every fork version \<open>v\<close>, the record built by
  \<^verbatim>\<open>NewEmptyExecutionPayloadWithVersion\<close> is tagged with \<open>v\<close>, its \<^verbatim>\<open>BaseFeePerGas\<close> is a
  non-nil zero, its \<^verbatim>\<open>Withdrawals\<close> is a non-nil empty list exactly when \<open>v\<close> is at or
  after Capella and nil otherwise, and every other field has its zero value.
\<close>

theorem new_empty_payload_fields:
  fixes V :: version_pkg and v :: Version
  defines "ep \<equiv> (NewEmptyExecutionPayloadWithVersion V v :: 'w ExecutionPayload)"
  shows "GetForkVersion ep = v
       \<and> BaseFeePerGas ep = Some 0
       \<and> (Withdrawals ep = Some [] \<longleftrightarrow> EqualsOrIsAfter v (Capella V))
       \<and> (Withdrawals ep = None \<longleftrightarrow> \<not> EqualsOrIsAfter v (Capella V))
       \<and> ParentHash ep = 0 \<and> FeeRecipient ep = 0 \<and> StateRoot ep = 0
       \<and> ReceiptsRoot ep = 0 \<and> LogsBloom ep = 0 \<and> Random ep = 0
       \<and> Number ep = 0 \<and> GasLimit ep = 0 \<and> GasUsed ep = 0 \<and> Timestamp ep = 0
       \<and> ExtraData ep = [] \<and> BlockHash ep = 0 \<and> Transactions ep = []
       \<and> BlobGasUsed ep = 0 \<and> ExcessBlobGas ep = 0"
  by (simp add: ep_def NewEmptyExecutionPayloadWithVersion_def NewVersionable_def
      GetForkVersion_def Let_def)

theorem new_empty_payload_fields_witness:
  "Withdrawals (NewEmptyExecutionPayloadWithVersion
      \<lparr>Capella = 3, Deneb = 4, Deneb1 = 5, Electra = 6, Electra1 = 7\<rparr> 4
        :: unit ExecutionPayload) = Some []
   \<and> Withdrawals (NewEmptyExecutionPayloadWithVersion
      \<lparr>Capella = 3, Deneb = 4, Deneb1 = 5, Electra = 6, Electra1 = 7\<rparr> 2
        :: unit ExecutionPayload) = None"
  using new_empty_payload_fields
    [of "\<lparr>Capella = 3, Deneb = 4, Deneb1 = 5, Electra = 6, Electra1 = 7\<rparr>" 4,
      where ?'w = unit]
    new_empty_payload_fields
    [of "\<lparr>Capella = 3, Deneb = 4, Deneb1 = 5, Electra = 6, Electra1 = 7\<rparr>" 2,
      where ?'w = unit]
  by (simp add: EqualsOrIsAfter_def)

text \<open>
  C4. When the fork version of a decoded payload is at or after Capella and its
  \<^verbatim>\<open>Withdrawals\<close> is nil, \<^verbatim>\<open>ValidateAfterDecodingSSZ\<close> sets \<^verbatim>\<open>Withdrawals\<close> to a non-nil
  empty list; when the fork version is before Capella, a nil \<^verbatim>\<open>Withdrawals\<close> stays nil.
  In both cases no other field changes.
\<close>

theorem validate_normalizes_withdrawals:
  fixes p :: "'w ExecutionPayload"
  assumes "Withdrawals p = None"
  shows "(EqualsOrIsAfter (GetForkVersion p) (Capella V) \<longrightarrow>
            fst (ValidateAfterDecodingSSZ V p) = p\<lparr>Withdrawals := Some []\<rparr>
          \<and> Withdrawals (fst (ValidateAfterDecodingSSZ V p)) = Some [])
       \<and> (GetForkVersion p < Capella V \<longrightarrow>
            fst (ValidateAfterDecodingSSZ V p) = p
          \<and> Withdrawals (fst (ValidateAfterDecodingSSZ V p)) = None)"
  using assms by (auto simp: ValidateAfterDecodingSSZ_def EqualsOrIsAfter_def)

theorem validate_normalizes_withdrawals_witness:
  "Withdrawals (fst (ValidateAfterDecodingSSZ
      \<lparr>Capella = 3, Deneb = 4, Deneb1 = 5, Electra = 6, Electra1 = 7\<rparr>
      ((NewEmptyExecutionPayloadWithVersion
          \<lparr>Capella = 3, Deneb = 4, Deneb1 = 5, Electra = 6, Electra1 = 7\<rparr> 4
          :: unit ExecutionPayload)\<lparr>Withdrawals := None\<rparr>))) = Some []
   \<and> Withdrawals (fst (ValidateAfterDecodingSSZ
      \<lparr>Capella = 3, Deneb = 4, Deneb1 = 5, Electra = 6, Electra1 = 7\<rparr>
      (NewEmptyExecutionPayloadWithVersion
          \<lparr>Capella = 3, Deneb = 4, Deneb1 = 5, Electra = 6, Electra1 = 7\<rparr> 2
          :: unit ExecutionPayload))) = None"
  using validate_normalizes_withdrawals
    [of "(NewEmptyExecutionPayloadWithVersion
          \<lparr>Capella = 3, Deneb = 4, Deneb1 = 5, Electra = 6, Electra1 = 7\<rparr> 4
          :: unit ExecutionPayload)\<lparr>Withdrawals := None\<rparr>"
        "\<lparr>Capella = 3, Deneb = 4, Deneb1 = 5, Electra = 6, Electra1 = 7\<rparr>"]
    validate_normalizes_withdrawals
    [of "NewEmptyExecutionPayloadWithVersion
          \<lparr>Capella = 3, Deneb = 4, Deneb1 = 5, Electra = 6, Electra1 = 7\<rparr> 2
          :: unit ExecutionPayload"
        "\<lparr>Capella = 3, Deneb = 4, Deneb1 = 5, Electra = 6, Electra1 = 7\<rparr>"]
  by (simp add: NewEmptyExecutionPayloadWithVersion_def NewVersionable_def
      GetForkVersion_def EqualsOrIsAfter_def Let_def)

text \<open>
  C9. Whatever the fork version and the fields of a payload, \<^verbatim>\<open>ValidateAfterDecodingSSZ\<close>
  returns the nil error: no missing-required-field failure can come out of it.
\<close>

theorem validate_never_fails:
  "snd (ValidateAfterDecodingSSZ V p) = None"
  by (simp add: ValidateAfterDecodingSSZ_def)

text \<open>
  C6. \<^verbatim>\<open>ToHeader\<close> returns an error exactly when the fork version of the payload is none
  of Deneb, Deneb1, Electra and Electra1. When it succeeds, the header has the payload's
  version tag, every scalar and fixed-size field (and \<^verbatim>\<open>ExtraData\<close>) unchanged, and the
  hash-tree-roots of \<^verbatim>\<open>Transactions\<close> and \<^verbatim>\<open>Withdrawals\<close> in place of the two lists.
\<close>

theorem to_header_spec:
  fixes p :: "'w ExecutionPayload"
  shows "((\<exists>e. ToHeader V txsRoot wdsRoot p = Inl e) \<longleftrightarrow>
            GetForkVersion p \<notin> {Deneb V, Deneb1 V, Electra V, Electra1 V})
       \<and> (\<forall>h. ToHeader V txsRoot wdsRoot p = Inr h \<longrightarrow>
            hdr_Versionable h = Versionable p
          \<and> hdr_ParentHash h = ParentHash p
          \<and> hdr_FeeRecipient h = FeeRecipient p
          \<and> hdr_StateRoot h = StateRoot p
          \<and> hdr_ReceiptsRoot h = ReceiptsRoot p
          \<and> hdr_LogsBloom h = LogsBloom p
          \<and> hdr_Random h = Random p
          \<and> hdr_Number h = Number p
          \<and> hdr_GasLimit h = GasLimit p
          \<and> hdr_GasUsed h = GasUsed p
          \<and> hdr_Timestamp h = Timestamp p
          \<and> hdr_ExtraData h = ExtraData p
          \<and> hdr_BaseFeePerGas h = BaseFeePerGas p
          \<and> hdr_BlockHash h = BlockHash p
          \<and> hdr_TransactionsRoot h = txsRoot (Transactions p)
          \<and> hdr_WithdrawalsRoot h = wdsRoot (Withdrawals p)
          \<and> hdr_BlobGasUsed h = BlobGasUsed p
          \<and> hdr_ExcessBlobGas h = ExcessBlobGas p)"
  by (auto simp: ToHeader_def getters_defs)

theorem to_header_spec_witness:
  "(\<exists>h. ToHeader \<lparr>Capella = 3, Deneb = 4, Deneb1 = 5, Electra = 6, Electra1 = 7\<rparr>
          (\<lambda>txs. of_nat (length txs)) (\<lambda>ws. case ws of None \<Rightarrow> 0 | Some l \<Rightarrow> of_nat (length l))
          ((NewEmptyExecutionPayloadWithVersion
              \<lparr>Capella = 3, Deneb = 4, Deneb1 = 5, Electra = 6, Electra1 = 7\<rparr> 6
              :: unit ExecutionPayload)\<lparr>Transactions := [[1, 2], []], Number := 9\<rparr>) = Inr h
        \<and> hdr_TransactionsRoot h = 2 \<and> hdr_Number h = 9 \<and> hdr_Versionable h = 6)
   \<and> (\<exists>e. ToHeader \<lparr>Capella = 3, Deneb = 4, Deneb1 = 5, Electra = 6, Electra1 = 7\<rparr>
          (\<lambda>txs. of_nat (length txs)) (\<lambda>ws. case ws of None \<Rightarrow> 0 | Some l \<Rightarrow> of_nat (length l))
          (NewEmptyExecutionPayloadWithVersion
              \<lparr>Capella = 3, Deneb = 4, Deneb1 = 5, Electra = 6, Electra1 = 7\<rparr> 3
              :: unit ExecutionPayload) = Inl e)"
  using to_header_spec
    [of "\<lparr>Capella = 3, Deneb = 4, Deneb1 = 5, Electra = 6, Electra1 = 7\<rparr>"
        "\<lambda>txs. of_nat (length txs)"
        "\<lambda>ws. case ws of None \<Rightarrow> 0 | Some l \<Rightarrow> of_nat (length l)"
        "(NewEmptyExecutionPayloadWithVersion
              \<lparr>Capella = 3, Deneb = 4, Deneb1 = 5, Electra = 6, Electra1 = 7\<rparr> 6
              :: unit ExecutionPayload)\<lparr>Transactions := [[1, 2], []], Number := 9\<rparr>"]
    to_header_spec
    [of "\<lparr>Capella = 3, Deneb = 4, Deneb1 = 5, Electra = 6, Electra1 = 7\<rparr>"
        "\<lambda>txs. of_nat (length txs)"
        "\<lambda>ws. case ws of None \<Rightarrow> 0 | Some l \<Rightarrow> of_nat (length l)"
        "NewEmptyExecutionPayloadWithVersion
              \<lparr>Capella = 3, Deneb = 4, Deneb1 = 5, Electra = 6, Electra1 = 7\<rparr> 3
              :: unit ExecutionPayload"]
  by (simp add: ToHeader_def NewEmptyExecutionPayloadWithVersion_def NewVersionable_def
      getters_defs EqualsOrIsAfter_def Let_def)

section \<open>Size accounting and the length of the encoding\<close>

lemma length_bytes_of [simp]: "length (bytes_of n w) = n"
  by (simp add: bytes_of_def)

lemma bytes_of_zero [simp]: "bytes_of n 0 = replicate n 0"
  by (simp add: bytes_of_def map_replicate_const)

lemma of_bytes_bytes_of:
  fixes w :: "'a::len word"
  assumes "LENGTH('a) \<le> 8 * n"
  shows "of_bytes (bytes_of n w) = w"
proof (rule bit_word_eqI)
  fix k assume k: "k < LENGTH('a)"
  have kn: "k div 8 < n"
    using k assms by (simp add: less_mult_imp_div_less mult.commute)
  have "bit (horner_sum uint (2 ^ LENGTH(8)) (bytes_of n w)) k \<longleftrightarrow> bit w k"
    unfolding bit_horner_sum_uint_exp_iff
    using kn k by (simp add: bytes_of_def bit_ucast_iff bit_drop_bit_eq)
  then show "bit (of_bytes (bytes_of n w) :: 'a word) k = bit w k"
    using k by (simp add: of_bytes_def bit_word_of_int_iff)
qed

lemma length_EncodeToBytes: "length (fst (EncodeToBytes K W buf p)) = length buf"
  by (simp add: EncodeToBytes_def)

text \<open>
  C3. The buffer returned by \<^verbatim>\<open>MarshalSSZ\<close> has as many bytes as \<^verbatim>\<open>SizeSSZ\<close> computes with
  \<open>fixed = false\<close>, which is the static size 528 plus the dynamic sizes of \<^verbatim>\<open>ExtraData\<close>,
  \<^verbatim>\<open>Transactions\<close> and \<^verbatim>\<open>Withdrawals\<close> (in \<^verbatim>\<open>uint32\<close> arithmetic, the type of the size);
  with \<open>fixed = true\<close>, \<^verbatim>\<open>SizeSSZ\<close> is 528 whatever the record holds.
\<close>

theorem marshal_length_is_size:
  "length (fst (MarshalSSZ K W p)) = unat (SizeSSZ W p False)
   \<and> SizeSSZ W p False =
       528 + SizeDynamicBytes (ExtraData p) + SizeSliceOfDynamicBytes (Transactions p)
           + SizeSliceOfStaticObjects W (Withdrawals p)
   \<and> SizeSSZ W p True = 528"
  by (simp add: MarshalSSZ_def length_EncodeToBytes ssz_Size_def SizeSSZ_def
      ExecutionPayloadStaticSize_def Let_def)

section \<open>Capacity limits\<close>

lemma transactions_loop_result:
  "(\<exists>hh'. transactions_loop H txs hh = Inr hh')
   \<or> transactions_loop H txs hh = Inl ErrIncorrectListSize"
  by (induction txs arbitrary: hh) (auto simp: Let_def)

lemma transactions_loop_fails_iff:
  "transactions_loop H txs hh = Inl ErrIncorrectListSize
   \<longleftrightarrow> list_ex (\<lambda>tx. length tx > 1073741824) txs"
  by (induction txs arbitrary: hh) (auto simp: Let_def)

lemma withdrawals_loop_succeeds:
  "\<forall>w\<in>set ws. \<forall>hh. \<exists>hh'. wd_HashTreeRootWith C w hh = Inr hh' \<Longrightarrow>
   \<exists>hh'. withdrawals_loop C ws hh = Inr hh'"
proof (induction ws arbitrary: hh)
  case Nil
  then show ?case by simp
next
  case (Cons w ws)
  from Cons.prems obtain hh1 where h1: "wd_HashTreeRootWith C w hh = Inr hh1"
    by (meson list.set_intros(1))
  from Cons.IH[of hh1] Cons.prems obtain hh2 where "withdrawals_loop C ws hh1 = Inr hh2"
    by auto
  with h1 show ?case by simp
qed

lemma field_ExtraData_result:
  "field_ExtraData H p hh =
     (if length (ExtraData p) > 32 then Inl ErrIncorrectListSize
      else Inr (MerkleizeWithMixin H (Index hh) (length (ExtraData p)) ((32 + 31) div 32)
                  (Append (ExtraData p) hh)))"
  by (simp add: field_ExtraData_def Let_def)

lemma field_Transactions_fails_iff:
  "field_Transactions H p hh = Inl ErrIncorrectListSize \<longleftrightarrow>
     length (Transactions p) > 1048576
     \<or> list_ex (\<lambda>tx. length tx > 1073741824) (Transactions p)"
  using transactions_loop_result[of H "Transactions p" hh]
        transactions_loop_fails_iff[of H "Transactions p" hh]
  by (auto simp: field_Transactions_def Let_def split: sum.splits)

lemma field_Transactions_cases:
  "(\<exists>hh'. field_Transactions H p hh = Inr hh')
   \<or> field_Transactions H p hh = Inl ErrIncorrectListSize"
  using transactions_loop_result[of H "Transactions p" hh]
  by (auto simp: field_Transactions_def Let_def split: sum.splits)

lemma field_Withdrawals_fails_iff:
  assumes "\<forall>w\<in>set (slice_of (Withdrawals p)). \<forall>hh. \<exists>hh'. wd_HashTreeRootWith C w hh = Inr hh'"
  shows "field_Withdrawals H C p hh = Inl ErrIncorrectListSize
         \<longleftrightarrow> length (slice_of (Withdrawals p)) > 16"
    and "(\<exists>hh'. field_Withdrawals H C p hh = Inr hh')
         \<or> field_Withdrawals H C p hh = Inl ErrIncorrectListSize"
  using withdrawals_loop_succeeds[OF assms, of hh]
  by (auto simp: field_Withdrawals_def Let_def split: sum.splits)

lemma HashTreeRootWith_outcome:
  assumes marshal: "\<exists>bz. U256_MarshalSSZ C (BaseFeePerGas p) = Inr bz"
      and wd: "\<forall>w\<in>set (slice_of (Withdrawals p)). \<forall>hh. \<exists>hh'. wd_HashTreeRootWith C w hh = Inr hh'"
  shows "if exceeds_maximum p then HashTreeRootWith H C p hh = Inl ErrIncorrectListSize
         else (\<exists>hh'. HashTreeRootWith H C p hh = Inr hh')"
proof -
  obtain bz where bz: "U256_MarshalSSZ C (BaseFeePerGas p) = Inr bz"
    using marshal by blast
  define h1 where "h1 = fields_0_to_9 H p hh"
  show ?thesis
  proof (cases "length (ExtraData p) > 32")
    case True
    then show ?thesis
      by (simp add: HashTreeRootWith_def Let_def field_ExtraData_result exceeds_maximum_def)
  next
    case ed: False
    define h2 where
      "h2 = MerkleizeWithMixin H (Index h1) (length (ExtraData p)) ((32 + 31) div 32)
              (Append (ExtraData p) h1)"
    define h3 where "h3 = PutBytes H (bytes_of 32 (BlockHash p)) (PutBytes H bz h2)"
    have step: "HashTreeRootWith H C p hh =
       (case field_Transactions H p h3 of Inl err \<Rightarrow> Inl err
        | Inr h4 \<Rightarrow> (case field_Withdrawals H C p h4 of Inl err \<Rightarrow> Inl err
            | Inr h5 \<Rightarrow> Inr (Merkleize H (Index hh)
                 (PutUint64 (ExcessBlobGas p) (PutUint64 (BlobGasUsed p) h5)))))"
      using ed
      by (simp add: HashTreeRootWith_def Let_def field_ExtraData_result bz h1_def h2_def h3_def
          split: sum.splits)
    from field_Transactions_cases[of H p h3] show ?thesis
    proof
      assume "field_Transactions H p h3 = Inl ErrIncorrectListSize"
      then show ?thesis
        using field_Transactions_fails_iff[of H p h3]
        by (auto simp: step exceeds_maximum_def)
    next
      assume "\<exists>hh'. field_Transactions H p h3 = Inr hh'"
      then obtain h4 where h4: "field_Transactions H p h3 = Inr h4" by blast
      then have tx: "\<not> (length (Transactions p) > 1048576
                        \<or> list_ex (\<lambda>tx. length tx > 1073741824) (Transactions p))"
        using field_Transactions_fails_iff[of H p h3] by simp
      from field_Withdrawals_fails_iff(2)[OF wd, of H h4] show ?thesis
      proof
        assume "field_Withdrawals H C p h4 = Inl ErrIncorrectListSize"
        then show ?thesis
          using field_Withdrawals_fails_iff(1)[OF wd, of H h4]
          by (simp add: step h4 exceeds_maximum_def)
      next
        assume "\<exists>hh'. field_Withdrawals H C p h4 = Inr hh'"
        then obtain h5 where h5: "field_Withdrawals H C p h4 = Inr h5" by blast
        then have "\<not> length (slice_of (Withdrawals p)) > 16"
          using field_Withdrawals_fails_iff(1)[OF wd, of H h4] by simp
        then show ?thesis
          using tx ed by (simp add: step h4 h5 exceeds_maximum_def)
      qed
    qed
  qed
qed

subsection \<open>The encoder checks no maximum\<close>

lemma length_EncodeUint256 [simp]: "length (EncodeUint256 n) = 32"
  by (simp add: EncodeUint256_def split: option.splits)

lemma length_concat_fixed:
  assumes "\<forall>x\<in>set xs. length (f x) = width"
  shows "length (concat (map f xs)) = length xs * width"
  using assms by (induction xs) simp_all

lemma length_blob_offsets [simp]: "length (blob_offsets off blobs) = length blobs"
  by (induction blobs arbitrary: off) simp_all

lemma length_EncodeSliceOfDynamicBytesContent:
  "length (EncodeSliceOfDynamicBytesContent blobs) = 4 * length blobs + length (concat blobs)"
  by (simp add: EncodeSliceOfDynamicBytesContent_def
      length_concat_fixed[where f = "bytes_of 4" and width = 4])

lemma encode_stream_eq:
  "encode_stream K W p =
     static_region W p 528 (528 + SizeDynamicBytes (ExtraData p))
       (528 + SizeDynamicBytes (ExtraData p) + SizeSliceOfDynamicBytes (Transactions p))
     @ ExtraData p @ EncodeSliceOfDynamicBytesContent (Transactions p)
     @ concat (map (wd_encode W) (slice_of (Withdrawals p)))"
  by (simp add: encode_stream_def DefineSSZ_def field_ptr_def array_ptr_def static_region_def
      SizeSSZ_def ExecutionPayloadStaticSize_def)

lemma length_static_region [simp]: "length (static_region W p o1 o2 o3) = 528"
  by (simp add: static_region_def)

lemma length_encode_stream:
  assumes "\<forall>w\<in>set (slice_of (Withdrawals p)). length (wd_encode W w) = unat (wd_SizeSSZ W)"
  shows "length (encode_stream K W p) =
           528 + length (ExtraData p)
           + (4 * length (Transactions p) + length (concat (Transactions p)))
           + length (slice_of (Withdrawals p)) * unat (wd_SizeSSZ W)"
proof -
  have "length (concat (map (wd_encode W) (slice_of (Withdrawals p)))) =
               length (slice_of (Withdrawals p)) * unat (wd_SizeSSZ W)"
    using assms by (rule length_concat_fixed)
  then show ?thesis
    by (simp add: encode_stream_eq length_EncodeSliceOfDynamicBytesContent)
qed

lemma unat_of_nat_u32: "n < 2 ^ 32 \<Longrightarrow> unat (of_nat n :: 32 word) = n"
  by (simp add: unat_of_nat)

lemma SizeSliceOfDynamicBytes_of_nat:
  "SizeSliceOfDynamicBytes blobs = of_nat (4 * length blobs + length (concat blobs))"
  by (induction blobs) (simp_all add: SizeSliceOfDynamicBytes_def)

lemma ssz_Size_of_nat:
  "ssz_Size W p =
     of_nat (528 + length (ExtraData p)
             + (4 * length (Transactions p) + length (concat (Transactions p)))
             + length (slice_of (Withdrawals p)) * unat (wd_SizeSSZ W))"
  by (simp add: ssz_Size_def SizeSSZ_def ExecutionPayloadStaticSize_def SizeDynamicBytes_def
      SizeSliceOfDynamicBytes_of_nat SizeSliceOfStaticObjects_def Let_def)

text \<open>
  Encoding succeeds on every record whose withdrawals are written in the fixed element
  size and whose total size fits \<^verbatim>\<open>uint32\<close>, whatever the lengths of its lists.
\<close>

lemma MarshalSSZ_succeeds:
  assumes codec: "\<forall>w\<in>set (slice_of (Withdrawals p)). length (wd_encode W w) = unat (wd_SizeSSZ W)"
      and fits: "528 + length (ExtraData p)
                 + (4 * length (Transactions p) + length (concat (Transactions p)))
                 + length (slice_of (Withdrawals p)) * unat (wd_SizeSSZ W) < 2 ^ 32"
  shows "MarshalSSZ K W p = (encode_stream K W p, None)"
proof -
  have "unat (ssz_Size W p) = length (encode_stream K W p)"
    unfolding ssz_Size_of_nat length_encode_stream[OF codec]
    using fits by (rule unat_of_nat_u32)
  then show ?thesis
    by (simp add: MarshalSSZ_def EncodeToBytes_def Let_def)
qed

lemma example_like_payload_marshals:
  fixes p :: "(32 word) ExecutionPayload"
  assumes "length (ExtraData p) \<le> 40" and "Transactions p = [[10, 20], []]"
      and "length (slice_of (Withdrawals p)) \<le> 20"
  shows "MarshalSSZ example_constants example_codec p =
           (encode_stream example_constants example_codec p, None)"
proof (rule MarshalSSZ_succeeds)
  show "\<forall>w\<in>set (slice_of (Withdrawals p)).
          length (wd_encode example_codec w) = unat (wd_SizeSSZ example_codec)"
    by (simp add: example_codec_def)
  show "528 + length (ExtraData p)
        + (4 * length (Transactions p) + length (concat (Transactions p)))
        + length (slice_of (Withdrawals p)) * unat (wd_SizeSSZ example_codec) < 2 ^ 32"
    using assms by (simp add: example_codec_def)
qed




section \<open>JSON: required and optional keys\<close>

lemma UnmarshalJSON_error:
  assumes "json_Unmarshal input = Inr dec"
  shows "(\<exists>name. snd (UnmarshalJSON json_Unmarshal p input) = Some (MissingRequiredField name))
           \<longleftrightarrow> required_missing dec"
    and "snd (UnmarshalJSON json_Unmarshal p input) = None \<longleftrightarrow> \<not> required_missing dec"
  using assms
  by (auto simp: UnmarshalJSON_def required_missing_def Let_def split: option.splits)

lemma UnmarshalJSON_optional:
  assumes "json_Unmarshal input = Inr dec"
  shows "Withdrawals (fst (UnmarshalJSON json_Unmarshal p input)) =
           (if required_missing dec then Withdrawals p
            else case dec_Withdrawals dec of None \<Rightarrow> Withdrawals p | Some ws \<Rightarrow> Some ws)"
    and "BlobGasUsed (fst (UnmarshalJSON json_Unmarshal p input)) =
           (if required_missing dec then BlobGasUsed p
            else case dec_BlobGasUsed dec of None \<Rightarrow> BlobGasUsed p | Some v \<Rightarrow> v)"
    and "ExcessBlobGas (fst (UnmarshalJSON json_Unmarshal p input)) =
           (if required_missing dec then ExcessBlobGas p
            else case dec_ExcessBlobGas dec of None \<Rightarrow> ExcessBlobGas p | Some v \<Rightarrow> v)"
  using assms
  by (auto simp: UnmarshalJSON_def required_missing_def Let_def split: option.splits)

lemma UnmarshalJSON_decode_error:
  assumes "json_Unmarshal input = Inl err"
  shows "UnmarshalJSON json_Unmarshal p input = (p, Some err)"
  using assms by (simp add: UnmarshalJSON_def)

text \<open>
  C10. \<^verbatim>\<open>UnmarshalJSON\<close> hands the input to \<^verbatim>\<open>json.Unmarshal\<close>; when that rejects the input,
  its error is returned and the record is untouched. On an input that it decodes into
  the intermediate struct \<open>dec\<close>, where a key that is absent or \<^verbatim>\<open>null\<close> in the input is
  a nil field of \<open>dec\<close>: \<^verbatim>\<open>UnmarshalJSON\<close> fails with a missing-required-field error
  exactly when one of the fourteen required keys is nil, and returns no error exactly
  when none is; the keys \<^verbatim>\<open>withdrawals\<close>, \<^verbatim>\<open>blobGasUsed\<close> and \<^verbatim>\<open>excessBlobGas\<close> are not among
  them, and when one of them is nil the field of the record keeps the value it had.
\<close>

theorem unmarshal_json_required_fields:
  "(\<forall>err. json_Unmarshal input = Inl err \<longrightarrow>
      UnmarshalJSON json_Unmarshal p input = (p, Some err))
   \<and> (\<forall>dec. json_Unmarshal input = Inr dec \<longrightarrow>
        ((\<exists>name. snd (UnmarshalJSON json_Unmarshal p input) = Some (MissingRequiredField name))
            \<longleftrightarrow> required_missing dec)
      \<and> (snd (UnmarshalJSON json_Unmarshal p input) = None \<longleftrightarrow> \<not> required_missing dec)
      \<and> (dec_Withdrawals dec = None \<longrightarrow>
            Withdrawals (fst (UnmarshalJSON json_Unmarshal p input)) = Withdrawals p)
      \<and> (dec_BlobGasUsed dec = None \<longrightarrow>
            BlobGasUsed (fst (UnmarshalJSON json_Unmarshal p input)) = BlobGasUsed p)
      \<and> (dec_ExcessBlobGas dec = None \<longrightarrow>
            ExcessBlobGas (fst (UnmarshalJSON json_Unmarshal p input)) = ExcessBlobGas p))"
proof (intro conjI allI impI)
  fix err assume "json_Unmarshal input = Inl err"
  then show "UnmarshalJSON json_Unmarshal p input = (p, Some err)"
    by (rule UnmarshalJSON_decode_error)
next
  fix dec assume dec: "json_Unmarshal input = Inr dec"
  note e = UnmarshalJSON_error
      [where json_Unmarshal = json_Unmarshal and input = input and dec = dec and p = p]
  note o = UnmarshalJSON_optional
      [where json_Unmarshal = json_Unmarshal and input = input and dec = dec and p = p]
  show "(\<exists>name. snd (UnmarshalJSON json_Unmarshal p input) = Some (MissingRequiredField name))
          \<longleftrightarrow> required_missing dec"
    using dec by (rule e(1))
  show "snd (UnmarshalJSON json_Unmarshal p input) = None \<longleftrightarrow> \<not> required_missing dec"
    using dec by (rule e(2))
  show "Withdrawals (fst (UnmarshalJSON json_Unmarshal p input)) = Withdrawals p"
    if "dec_Withdrawals dec = None"
    using o(1)[OF dec] that by simp
  show "BlobGasUsed (fst (UnmarshalJSON json_Unmarshal p input)) = BlobGasUsed p"
    if "dec_BlobGasUsed dec = None"
    using o(2)[OF dec] that by simp
  show "ExcessBlobGas (fst (UnmarshalJSON json_Unmarshal p input)) = ExcessBlobGas p"
    if "dec_ExcessBlobGas dec = None"
    using o(3)[OF dec] that by simp
qed

theorem unmarshal_json_required_fields_witness:
  "snd (UnmarshalJSON (\<lambda>_. Inr example_dec) example_payload []) = None
   \<and> Withdrawals (fst (UnmarshalJSON (\<lambda>_. Inr example_dec) example_payload [])) = Some [5]
   \<and> BlobGasUsed (fst (UnmarshalJSON (\<lambda>_. Inr example_dec) example_payload [])) = 0
   \<and> (\<exists>name. snd (UnmarshalJSON (\<lambda>_. Inr (example_dec\<lparr>dec_GasUsed := None\<rparr>))
                    example_payload []) = Some (MissingRequiredField name))"
  using unmarshal_json_required_fields
    [where json_Unmarshal = "\<lambda>_. Inr example_dec" and input = "[]"
       and p = example_payload]
    unmarshal_json_required_fields
    [where json_Unmarshal = "\<lambda>_. Inr (example_dec\<lparr>dec_GasUsed := None\<rparr>)" and input = "[]"
       and p = example_payload]
  by (simp add: required_missing_def example_dec_def example_payload_def
      NewEmptyExecutionPayloadWithVersion_def Let_def)

section \<open>The two hashers agree\<close>

subsection \<open>Padding and chunks\<close>

lemma length_pad32: "length (pad32 b) = ((length b + 31) div 32) * 32"
proof -
  define q r where "q = length b div 32" and "r = length b mod 32"
  have n: "length b = q * 32 + r"
    by (simp add: q_def r_def)
  have r: "r < 32"
    by (simp add: r_def)
  show ?thesis
  proof (cases "r = 0")
    case True
    have "(q * 32 + 31) div 32 = q"
      by simp
    with True show ?thesis
      by (simp add: pad32_def n)
  next
    case False
    have "q * 32 + r + 31 = (r - 1) + (q + 1) * 32"
      using False by simp
    then have "(q * 32 + r + 31) div 32 = q + 1"
      using r by simp
    moreover have "(q * 32 + r) mod 32 = r"
      using r by simp
    ultimately show ?thesis
      using False r by (simp add: pad32_def n)
  qed
qed

lemma length_pad32_mod [simp]: "length (pad32 b) mod 32 = 0"
  by (simp add: length_pad32)

lemma length_pad32_div: "(length (pad32 b) + 31) div 32 = (length b + 31) div 32"
  by (simp add: length_pad32)

lemma pad32_aligned [simp]: "length b mod 32 = 0 \<Longrightarrow> pad32 b = b"
  by (simp add: pad32_def)

lemma pad32_append_aligned:
  assumes "length B mod 32 = 0"
  shows "pad32 (B @ X) = B @ pad32 X"
proof -
  have "(length B + length X) mod 32 = length X mod 32"
    using assms by (metis add_0 mod_add_left_eq)
  then show ?thesis by (simp add: pad32_def)
qed

lemma length_pad32_le32: "0 < length b \<Longrightarrow> length b \<le> 32 \<Longrightarrow> length (pad32 b) = 32"
  by (cases "length b = 32") (auto simp: pad32_def)


lemma chunks_unfold:
  "b \<noteq> [] \<Longrightarrow> chunks b = pad32 (take 32 b) # chunks (drop 32 b)"
  by (cases b) simp_all

lemma chunks_append_chunk:
  assumes "length c = 32"
  shows "chunks (c @ rest) = c # chunks rest"
proof -
  have "c @ rest \<noteq> []" using assms by auto
  then show ?thesis using assms by (simp add: chunks_unfold)
qed

lemma chunks_concat:
  "\<forall>c\<in>set cs. length c = 32 \<Longrightarrow> chunks (concat cs) = cs"
  by (induction cs) (simp_all add: chunks_append_chunk)

lemma chunks_short:
  assumes "b \<noteq> []" "length b \<le> 32"
  shows "chunks b = [pad32 b]"
  using assms by (simp add: chunks_unfold)

lemma pad32_long:
  assumes "32 \<le> length b"
  shows "pad32 b = take 32 b @ pad32 (drop 32 b)"
proof -
  have "length b = 32 + (length b - 32)" using assms by simp
  then have "length b mod 32 = (length b - 32) mod 32"
    by (metis mod_add_self1)
  then show ?thesis
    by (simp add: pad32_def)
qed

lemma chunks_pad32: "chunks (pad32 b) = chunks b"
proof (induction "length b" arbitrary: b rule: less_induct)
  case less
  show ?case
  proof (cases "b = []")
    case True
    then show ?thesis by (simp add: pad32_def)
  next
    case ne: False
    show ?thesis
    proof (cases "length b \<le> 32")
      case True
      have "length (pad32 b) = 32"
        using ne True by (simp add: length_pad32_le32)
      then have "chunks (pad32 b @ []) = pad32 b # chunks []"
        by (rule chunks_append_chunk)
      then show ?thesis
        using ne True by (simp add: chunks_short)
    next
      case False
      then have long: "32 \<le> length b" by simp
      have IH: "chunks (pad32 (drop 32 b)) = chunks (drop 32 b)"
        using less[of "drop 32 b"] ne by simp
      have "chunks (pad32 b) = take 32 b # chunks (pad32 (drop 32 b))"
        using long by (simp add: pad32_long chunks_append_chunk)
      moreover have "chunks b = take 32 b # chunks (drop 32 b)"
        using ne long by (simp add: chunks_unfold)
      ultimately show ?thesis
        using IH by simp
    qed
  qed
qed

lemma chunk_length: "c \<in> set (chunks b) \<Longrightarrow> length c = 32"
proof (induction "length b" arbitrary: b rule: less_induct)
  case less
  show ?case
  proof (cases "b = []")
    case True
    with less.prems show ?thesis by simp
  next
    case ne: False
    have first: "length (pad32 (take 32 b)) = 32"
      using ne by (simp add: length_pad32_le32)
    from less.prems ne have "c = pad32 (take 32 b) \<or> c \<in> set (chunks (drop 32 b))"
      by (simp add: chunks_unfold)
    then show ?thesis
      using first less.hyps[of "drop 32 b"] ne by auto
  qed
qed

subsection \<open>Leaves are chunks\<close>

lemma length_zero_hash [simp]: "length (zero_hash H d) = 32"
  by (cases d) (simp_all add: zero_chunk_def Let_def)

lemma length_merkle_tree:
  assumes "\<forall>c\<in>set cs. length c = 32"
  shows "length (merkle_tree H d cs) = 32"
proof (cases d)
  case 0
  then show ?thesis using assms by (cases cs) (simp_all add: zero_chunk_def)
next
  case (Suc n)
  then show ?thesis by (simp add: Let_def)
qed

lemma length_merkleize:
  "\<forall>c\<in>set cs. length c = 32 \<Longrightarrow> length (merkleize H limit cs) = 32"
  by (simp add: merkleize_def length_merkle_tree)

lemma length_merkleize_chunks [simp]: "length (merkleize H limit (chunks b)) = 32"
  by (simp add: length_merkleize chunk_length)

lemma length_mix_in_length [simp]: "length (mix_in_length H root num) = 32"
  by (simp add: mix_in_length_def)

lemma length_hash_dynamic_bytes [simp]: "length (hash_dynamic_bytes H maxSize blob) = 32"
  by (simp add: hash_dynamic_bytes_def)

lemma length_hash_static_bytes:
  "0 < length b \<Longrightarrow> length (hash_static_bytes H b) = 32"
  by (simp add: hash_static_bytes_def length_pad32_le32)

subsection \<open>What each hasher operation leaves in the buffer\<close>

lemma buf_AppendBytes32: "h_buf (AppendBytes32 b hh) = h_buf hh @ pad32 b"
  by (simp add: AppendBytes32_def)

lemma buf_PutUint64: "h_buf (PutUint64 i hh) = h_buf hh @ pad32 (bytes_of 8 i)"
  by (simp add: PutUint64_def AppendBytes32_def)

lemma buf_PutBytes: "h_buf (PutBytes H b hh) = h_buf hh @ hash_static_bytes H b"
  by (simp add: PutBytes_def AppendBytes32_def Merkleize_def merkleizeImpl_def Index_def
      hash_static_bytes_def Let_def length_pad32_div chunks_pad32)

lemma buf_Merkleize:
  assumes "h_buf hh = B @ X"
  shows "h_buf (Merkleize H (length B) hh) = B @ merkleize H ((length X + 31) div 32) (chunks X)"
  using assms by (simp add: Merkleize_def merkleizeImpl_def Let_def)

lemma buf_MerkleizeWithMixin:
  assumes "h_buf hh = B @ X" and "length B mod 32 = 0" and "0 < limit"
  shows "h_buf (MerkleizeWithMixin H (length B) num limit hh) =
           B @ mix_in_length H (merkleize H limit (chunks X)) num"
  using assms
  by (simp add: MerkleizeWithMixin_def FillUpTo32_def merkleizeImpl_def Let_def
      pad32_append_aligned chunks_pad32)

lemma transactions_loop_buf:
  assumes "transactions_loop H txs hh = Inr hh'" and "length (h_buf hh) mod 32 = 0"
  shows "h_buf hh' = h_buf hh @ concat (map (hash_dynamic_bytes H 1073741824) txs)"
  using assms
proof (induction txs arbitrary: hh)
  case Nil
  then show ?case by simp
next
  case (Cons elem rest)
  define h1 where "h1 = MerkleizeWithMixin H (Index hh) (length elem)
                          ((1073741824 + 31) div 32) (AppendBytes32 elem hh)"
  from Cons.prems(1) have ok: "\<not> length elem > 1073741824"
    and rest: "transactions_loop H rest h1 = Inr hh'"
    by (auto simp: Let_def h1_def split: if_splits)
  have "h_buf (AppendBytes32 elem hh) = h_buf hh @ pad32 elem"
    by (rule buf_AppendBytes32)
  then have h1: "h_buf h1 = h_buf hh @ hash_dynamic_bytes H 1073741824 elem"
    unfolding h1_def Index_def
    using buf_MerkleizeWithMixin[of "AppendBytes32 elem hh" "h_buf hh" "pad32 elem"
            "(1073741824 + 31) div 32" H "length elem"] Cons.prems(2)
    by (simp add: chunks_pad32 hash_dynamic_bytes_def)
  then have "length (h_buf h1) mod 32 = 0"
    using Cons.prems(2) by (simp add: mod_eq_0_iff_dvd)
  from Cons.IH[OF rest this] h1 show ?case by simp
qed

subsection \<open>The streaming hasher, field by field\<close>

lemma chunks_single: "length c = 32 \<Longrightarrow> chunks c = [c]"
  using chunks_append_chunk[of c "[]"] by simp

lemma withdrawals_loop_buf:
  assumes "withdrawals_loop C ws hh = Inr hh'" and "length (h_buf hh) mod 32 = 0"
      and "\<forall>w\<in>set ws. withdrawal_hashers_agree C wd_root w"
  shows "h_buf hh' = h_buf hh @ concat (map (\<lambda>w. bytes_of 32 (wd_root w)) ws)"
  using assms
proof (induction ws arbitrary: hh)
  case Nil
  then show ?case by simp
next
  case (Cons w ws)
  obtain h1 where h1: "wd_HashTreeRootWith C w hh = Inr h1"
    using Cons.prems(1) by (cases "wd_HashTreeRootWith C w hh") simp_all
  have rest: "withdrawals_loop C ws h1 = Inr hh'"
    using Cons.prems(1) h1 by simp
  have agree: "withdrawal_hashers_agree C wd_root w"
    using Cons.prems(3) by simp
  have b1: "h_buf h1 = h_buf hh @ bytes_of 32 (wd_root w)"
    by (rule agree[unfolded withdrawal_hashers_agree_def, rule_format, OF Cons.prems(2) h1])
  then have al: "length (h_buf h1) mod 32 = 0"
    using Cons.prems(2) by (simp add: mod_eq_0_iff_dvd)
  have tl: "\<forall>w\<in>set ws. withdrawal_hashers_agree C wd_root w"
    using Cons.prems(3) by simp
  from Cons.IH[OF rest al tl] b1 show ?case by simp
qed

lemma field_ExtraData_buf:
  assumes "field_ExtraData H p hh = Inr hh'" and "length (h_buf hh) mod 32 = 0"
  shows "h_buf hh' = h_buf hh @ hash_dynamic_bytes H 32 (ExtraData p)"
proof -
  from assms(1) have
    hh': "hh' = MerkleizeWithMixin H (Index hh) (length (ExtraData p)) ((32 + 31) div 32)
                  (Append (ExtraData p) hh)"
    by (simp add: field_ExtraData_result split: if_splits)
  have "h_buf (Append (ExtraData p) hh) = h_buf hh @ ExtraData p"
    by (simp add: Append_def)
  from buf_MerkleizeWithMixin[OF this assms(2), of "(32 + 31) div 32" H "length (ExtraData p)"]
  show ?thesis
    by (simp add: hh' Index_def hash_dynamic_bytes_def)
qed

lemma field_Transactions_buf:
  assumes "field_Transactions H p hh = Inr hh'" and "length (h_buf hh) mod 32 = 0"
  shows "h_buf hh' = h_buf hh @
           mix_in_length H
             (merkleize H 1048576 (map (hash_dynamic_bytes H 1073741824) (Transactions p)))
             (length (Transactions p))"
proof -
  have le: "\<not> length (Transactions p) > 1048576"
    using assms(1) by (auto simp: field_Transactions_def Let_def)
  obtain h1 where loop: "transactions_loop H (Transactions p) hh = Inr h1"
    using assms(1) le
    by (cases "transactions_loop H (Transactions p) hh") (simp_all add: field_Transactions_def Let_def)
  have hh': "hh' = MerkleizeWithMixin H (Index hh) (length (Transactions p)) 1048576 h1"
    using assms(1) le loop by (simp add: field_Transactions_def Let_def)
  have "h_buf h1 = h_buf hh @ concat (map (hash_dynamic_bytes H 1073741824) (Transactions p))"
    using loop assms(2) by (rule transactions_loop_buf)
  from buf_MerkleizeWithMixin[OF this assms(2), of 1048576 H "length (Transactions p)"]
  show ?thesis
    by (simp add: hh' Index_def chunks_concat)
qed

lemma field_Withdrawals_buf:
  assumes "field_Withdrawals H C p hh = Inr hh'" and "length (h_buf hh) mod 32 = 0"
      and "\<forall>w\<in>set (slice_of (Withdrawals p)). withdrawal_hashers_agree C wd_root w"
  shows "h_buf hh' = h_buf hh @
           mix_in_length H
             (merkleize H 16 (map (\<lambda>w. bytes_of 32 (wd_root w)) (slice_of (Withdrawals p))))
             (length (slice_of (Withdrawals p)))"
proof -
  have le: "\<not> length (slice_of (Withdrawals p)) > 16"
    using assms(1) by (auto simp: field_Withdrawals_def Let_def)
  obtain h1 where loop: "withdrawals_loop C (slice_of (Withdrawals p)) hh = Inr h1"
    using assms(1) le
    by (cases "withdrawals_loop C (slice_of (Withdrawals p)) hh")
       (simp_all add: field_Withdrawals_def Let_def)
  have hh': "hh' = MerkleizeWithMixin H (Index hh) (length (slice_of (Withdrawals p))) 16 h1"
    using assms(1) le loop by (simp add: field_Withdrawals_def Let_def)
  have "h_buf h1 = h_buf hh @ concat (map (\<lambda>w. bytes_of 32 (wd_root w)) (slice_of (Withdrawals p)))"
    using loop assms(2,3) by (rule withdrawals_loop_buf)
  from buf_MerkleizeWithMixin[OF this assms(2), of 16 H "length (slice_of (Withdrawals p))"]
  show ?thesis
    by (simp add: hh' Index_def chunks_concat)
qed

lemma fields_0_to_9_buf:
  "h_buf (fields_0_to_9 H p hh) = h_buf hh @
     hash_static_bytes H (bytes_of 32 (ParentHash p)) @
     hash_static_bytes H (bytes_of 20 (FeeRecipient p)) @
     hash_static_bytes H (bytes_of 32 (StateRoot p)) @
     hash_static_bytes H (bytes_of 32 (ReceiptsRoot p)) @
     hash_static_bytes H (bytes_of 256 (LogsBloom p)) @
     hash_static_bytes H (bytes_of 32 (Random p)) @
     pad32 (bytes_of 8 (Number p)) @
     pad32 (bytes_of 8 (GasLimit p)) @
     pad32 (bytes_of 8 (GasUsed p)) @
     pad32 (bytes_of 8 (Timestamp p))"
  by (simp add: fields_0_to_9_def Let_def buf_PutBytes buf_PutUint64)

lemma HashTreeRootWith_InrE:
  assumes run: "HashTreeRootWith H C p hh = Inr hh'"
  obtains h2 bz h4 h5 where
    "field_ExtraData H p (fields_0_to_9 H p hh) = Inr h2"
    "U256_MarshalSSZ C (BaseFeePerGas p) = Inr bz"
    "field_Transactions H p (PutBytes H (bytes_of 32 (BlockHash p)) (PutBytes H bz h2)) = Inr h4"
    "field_Withdrawals H C p h4 = Inr h5"
    "hh' = Merkleize H (Index hh) (PutUint64 (ExcessBlobGas p) (PutUint64 (BlobGasUsed p) h5))"
proof -
  define h1 where "h1 = fields_0_to_9 H p hh"
  obtain h2 where h2: "field_ExtraData H p h1 = Inr h2"
    using run
    by (cases "field_ExtraData H p h1") (simp_all add: HashTreeRootWith_def Let_def h1_def)
  obtain bz where bz: "U256_MarshalSSZ C (BaseFeePerGas p) = Inr bz"
    using run h2
    by (cases "U256_MarshalSSZ C (BaseFeePerGas p)")
       (simp_all add: HashTreeRootWith_def Let_def h1_def)
  define h3 where "h3 = PutBytes H (bytes_of 32 (BlockHash p)) (PutBytes H bz h2)"
  obtain h4 where h4: "field_Transactions H p h3 = Inr h4"
    using run h2 bz
    by (cases "field_Transactions H p h3")
       (simp_all add: HashTreeRootWith_def Let_def h1_def h3_def)
  obtain h5 where h5: "field_Withdrawals H C p h4 = Inr h5"
    using run h2 bz h4
    by (cases "field_Withdrawals H C p h4")
       (simp_all add: HashTreeRootWith_def Let_def h1_def h3_def)
  have "hh' = Merkleize H (Index hh) (PutUint64 (ExcessBlobGas p) (PutUint64 (BlobGasUsed p) h5))"
    using run h2 bz h4 h5 by (simp add: HashTreeRootWith_def Let_def h1_def h3_def)
  with h2 bz h4 h5 show thesis
    using that by (simp add: h1_def h3_def)
qed

lemma leaves_DefineSSZ:
  "concat (map (HashOp H wd_root p) (DefineSSZ K)) =
    [ hash_static_bytes H (bytes_of 32 (ParentHash p)),
      hash_static_bytes H (bytes_of 20 (FeeRecipient p)),
      hash_static_bytes H (bytes_of 32 (StateRoot p)),
      hash_static_bytes H (bytes_of 32 (ReceiptsRoot p)),
      hash_static_bytes H (bytes_of 256 (LogsBloom p)),
      hash_static_bytes H (bytes_of 32 (Random p)),
      pad32 (bytes_of 8 (Number p)),
      pad32 (bytes_of 8 (GasLimit p)),
      pad32 (bytes_of 8 (GasUsed p)),
      pad32 (bytes_of 8 (Timestamp p)),
      hash_dynamic_bytes H 32 (ExtraData p),
      EncodeUint256 (BaseFeePerGas p),
      hash_static_bytes H (bytes_of 32 (BlockHash p)),
      mix_in_length H
        (merkleize H (MaxTxsPerPayload K)
           (map (hash_dynamic_bytes H (MaxBytesPerTx K)) (Transactions p)))
        (length (Transactions p)),
      mix_in_length H
        (merkleize H 16 (map (\<lambda>w. bytes_of 32 (wd_root w)) (slice_of (Withdrawals p))))
        (length (slice_of (Withdrawals p))),
      pad32 (bytes_of 8 (BlobGasUsed p)),
      pad32 (bytes_of 8 (ExcessBlobGas p)) ]"
  by (simp add: DefineSSZ_def field_ptr_def array_ptr_def)


lemma HashTreeRootWith_buf:
  assumes run: "HashTreeRootWith H C p hh = Inr hh'"
      and aligned: "length (h_buf hh) mod 32 = 0"
      and marshal: "\<forall>bz. U256_MarshalSSZ C (BaseFeePerGas p) = Inr bz \<longrightarrow>
                       bz = EncodeUint256 (BaseFeePerGas p)"
      and wd: "\<forall>w\<in>set (slice_of (Withdrawals p)). withdrawal_hashers_agree C wd_root w"
      and K: "MaxTxsPerPayload K = 1048576" "MaxBytesPerTx K = 1073741824"
  shows "h_buf hh' =
           h_buf hh @ merkleize H 17 (concat (map (HashOp H wd_root p) (DefineSSZ K)))"
proof -
  from run obtain h2 bz h4 h5 where
    h2: "field_ExtraData H p (fields_0_to_9 H p hh) = Inr h2" and
    bz: "U256_MarshalSSZ C (BaseFeePerGas p) = Inr bz" and
    h4: "field_Transactions H p (PutBytes H (bytes_of 32 (BlockHash p)) (PutBytes H bz h2)) = Inr h4" and
    h5: "field_Withdrawals H C p h4 = Inr h5" and
    hh': "hh' = Merkleize H (Index hh) (PutUint64 (ExcessBlobGas p) (PutUint64 (BlobGasUsed p) h5))"
    by (rule HashTreeRootWith_InrE)
  have bz_eq: "bz = EncodeUint256 (BaseFeePerGas p)"
    using marshal bz by blast
  define B where "B = h_buf hh"
  define X1 where "X1 =
     hash_static_bytes H (bytes_of 32 (ParentHash p)) @
     hash_static_bytes H (bytes_of 20 (FeeRecipient p)) @
     hash_static_bytes H (bytes_of 32 (StateRoot p)) @
     hash_static_bytes H (bytes_of 32 (ReceiptsRoot p)) @
     hash_static_bytes H (bytes_of 256 (LogsBloom p)) @
     hash_static_bytes H (bytes_of 32 (Random p)) @
     pad32 (bytes_of 8 (Number p)) @
     pad32 (bytes_of 8 (GasLimit p)) @
     pad32 (bytes_of 8 (GasUsed p)) @
     pad32 (bytes_of 8 (Timestamp p))"
  have lenX1: "length X1 = 320"
    by (simp add: X1_def length_hash_static_bytes length_pad32_le32)
  have b1: "h_buf (fields_0_to_9 H p hh) = B @ X1"
    by (simp add: fields_0_to_9_buf B_def X1_def)
  have a0: "32 dvd length B"
    using aligned by (simp add: B_def mod_eq_0_iff_dvd)
  have a1: "length (h_buf (fields_0_to_9 H p hh)) mod 32 = 0"
    using a0 by (simp add: b1 lenX1 mod_eq_0_iff_dvd)
  define X2 where "X2 = X1 @ hash_dynamic_bytes H 32 (ExtraData p)"
  have b2: "h_buf h2 = B @ X2"
    using field_ExtraData_buf[OF h2 a1] by (simp add: b1 X2_def)
  define h3 where "h3 = PutBytes H (bytes_of 32 (BlockHash p)) (PutBytes H bz h2)"
  define X3 where "X3 = X2 @ EncodeUint256 (BaseFeePerGas p)
                          @ hash_static_bytes H (bytes_of 32 (BlockHash p))"
  have b3: "h_buf h3 = B @ X3"
    by (simp add: h3_def buf_PutBytes b2 X3_def bz_eq hash_static_bytes_def)
  have lenX3: "length X3 = 416"
    by (simp add: X3_def X2_def lenX1 length_hash_static_bytes)
  have a3: "length (h_buf h3) mod 32 = 0"
    using a0 by (simp add: b3 lenX3 mod_eq_0_iff_dvd)
  define T where "T = mix_in_length H
             (merkleize H 1048576 (map (hash_dynamic_bytes H 1073741824) (Transactions p)))
             (length (Transactions p))"
  have b4: "h_buf h4 = B @ X3 @ T"
    using field_Transactions_buf[OF h4[folded h3_def] a3] by (simp add: b3 T_def)
  have a4: "length (h_buf h4) mod 32 = 0"
    using a0 by (simp add: b4 lenX3 T_def mod_eq_0_iff_dvd)
  define W where "W = mix_in_length H
             (merkleize H 16 (map (\<lambda>w. bytes_of 32 (wd_root w)) (slice_of (Withdrawals p))))
             (length (slice_of (Withdrawals p)))"
  have b5: "h_buf h5 = B @ X3 @ T @ W"
    using field_Withdrawals_buf[OF h5 a4 wd] by (simp add: b4 W_def)
  define X where "X = X3 @ T @ W @ pad32 (bytes_of 8 (BlobGasUsed p))
                        @ pad32 (bytes_of 8 (ExcessBlobGas p))"
  have b6: "h_buf (PutUint64 (ExcessBlobGas p) (PutUint64 (BlobGasUsed p) h5)) = B @ X"
    by (simp add: buf_PutUint64 b5 X_def)
  have lenX: "length X = 544"
    by (simp add: X_def lenX3 T_def W_def length_pad32_le32)
  have final: "h_buf hh' = B @ merkleize H ((length X + 31) div 32) (chunks X)"
    unfolding hh' Index_def B_def[symmetric] using b6 by (rule buf_Merkleize)
  have leaves: "chunks X = concat (map (HashOp H wd_root p) (DefineSSZ K))"
    unfolding leaves_DefineSSZ
    by (simp add: X_def X3_def X2_def X1_def T_def W_def K chunks_append_chunk chunks_single
        length_hash_static_bytes length_pad32_le32)
  show ?thesis
    using final by (simp add: lenX leaves B_def)
qed

lemma leaves_length:
  "\<forall>c\<in>set (concat (map (HashOp H wd_root p) (DefineSSZ K))). length c = 32"
  by (simp add: leaves_DefineSSZ length_hash_static_bytes length_pad32_le32)

text \<open>
  C1. Let the streaming hasher \<^verbatim>\<open>HashTreeRootWith\<close> run on a fresh hasher and succeed. Let
  the parts that lie outside the sources behave as the schema says: the constants of
  \<^verbatim>\<open>DefineSSZ\<close> are the literals of \<^verbatim>\<open>HashTreeRootWith\<close>, the marshalled \<^verbatim>\<open>BaseFeePerGas\<close> is
  the 32 bytes that the codec writes for it, and the streaming hasher of every
  withdrawal of the record appends the root that the schema-driven hasher of
  withdrawals computes. Then the digest that the hasher holds at the end is the root
  that the schema-driven \<^verbatim>\<open>HashTreeRoot\<close> returns (which never fails).
\<close>

theorem dual_hashers_agree:
  assumes "HashTreeRootWith H C p \<lparr>h_buf = []\<rparr> = Inr hh'"
      and "\<forall>bz. U256_MarshalSSZ C (BaseFeePerGas p) = Inr bz \<longrightarrow>
                bz = EncodeUint256 (BaseFeePerGas p)"
      and "\<forall>w\<in>set (slice_of (Withdrawals p)). withdrawal_hashers_agree C wd_root w"
      and "MaxTxsPerPayload K = 1048576" and "MaxBytesPerTx K = 1073741824"
  shows "HashRoot hh' = Inr (HashTreeRoot H wd_root K p)"
proof -
  define leaves where "leaves = concat (map (HashOp H wd_root p) (DefineSSZ K))"
  have buf: "h_buf hh' = merkleize H 17 leaves"
    using HashTreeRootWith_buf[OF assms(1) _ assms(2,3,4,5)] by (simp add: leaves_def)
  have "\<forall>c\<in>set leaves. length c = 32"
    unfolding leaves_def by (rule leaves_length)
  then have len: "length (merkleize H 17 leaves) = 32"
    by (rule length_merkleize)
  have n: "length leaves = 17"
    by (simp add: leaves_def leaves_DefineSSZ)
  show ?thesis
    by (simp add: HashRoot_def buf len HashTreeRoot_def ssz_HashConcurrent_def Let_def
        leaves_def[symmetric] n)
qed

theorem dual_hashers_agree_witness:
  "\<exists>hh'. HashTreeRootWith example_hash example_callees example_payload \<lparr>h_buf = []\<rparr> = Inr hh'
         \<and> HashRoot hh' =
             Inr (HashTreeRoot example_hash example_wd_root example_constants example_payload)"
proof -
  have "\<not> exceeds_maximum example_payload"
    by (simp add: exceeds_maximum_def example_payload_def slice_of_def)
  moreover have "\<exists>bz. U256_MarshalSSZ example_callees (BaseFeePerGas example_payload) = Inr bz"
    by (simp add: example_callees_def)
  moreover have "\<forall>w\<in>set (slice_of (Withdrawals example_payload)).
                   \<forall>hh. \<exists>hh'. wd_HashTreeRootWith example_callees w hh = Inr hh'"
    by (simp add: example_callees_def)
  ultimately obtain hh' where
    run: "HashTreeRootWith example_hash example_callees example_payload \<lparr>h_buf = []\<rparr> = Inr hh'"
    using HashTreeRootWith_outcome
      [where C = example_callees and p = example_payload and H = example_hash
         and hh = "\<lparr>h_buf = []\<rparr>"]
    by auto
  have marshal: "\<forall>bz. U256_MarshalSSZ example_callees (BaseFeePerGas example_payload) = Inr bz
                   \<longrightarrow> bz = EncodeUint256 (BaseFeePerGas example_payload)"
    by (auto simp: example_callees_def)
  have wd: "\<forall>w\<in>set (slice_of (Withdrawals example_payload)).
              withdrawal_hashers_agree example_callees example_wd_root w"
    by (auto simp: withdrawal_hashers_agree_def example_callees_def AppendBytes32_def)
  have "HashRoot hh' =
          Inr (HashTreeRoot example_hash example_wd_root example_constants example_payload)"
    using run marshal wd
    by (rule dual_hashers_agree) (simp_all add: example_constants_def)
  with run show ?thesis by blast
qed

section \<open>Round trip of the codec\<close>



subsection \<open>Fixed-width tables\<close>

lemma split_every_concat:
  assumes "\<forall>x\<in>set xs. length (f x) = width"
  shows "split_every width (length xs) (concat (map f xs) @ rest) = map f xs"
  using assms by (induction xs) simp_all

lemma split_every_concat':
  assumes "\<forall>x\<in>set xs. length (f x) = width"
  shows "split_every width (length xs) (concat (map f xs)) = map f xs"
  using split_every_concat[OF assms, of "[]"] by simp


subsection \<open>Offsets of a list of byte strings\<close>


lemma unat_blob_offsets:
  assumes "unat off + length (concat blobs) < 2 ^ 32"
  shows "map unat (blob_offsets off blobs) = nat_offsets (unat off) blobs"
  using assms
proof (induction blobs arbitrary: off)
  case Nil
  then show ?case by simp
next
  case (Cons b bs)
  have lt: "unat off + length b < 2 ^ 32"
    using Cons.prems by simp
  have step: "unat (off + of_nat (length b)) = unat off + length b"
    using lt by (simp add: unat_word_ariths unat_of_nat)
  have "unat (off + of_nat (length b)) + length (concat bs) < 2 ^ 32"
    using Cons.prems by (simp add: step)
  from Cons.IH[OF this] show ?case
    by (simp add: step)
qed

lemma slices_nat_offsets:
  "blobs \<noteq> [] \<Longrightarrow>
   slices (pre @ concat blobs) (nat_offsets (length pre) blobs) = blobs"
proof (induction blobs arbitrary: pre)
  case Nil
  then show ?case by simp
next
  case (Cons b bs)
  show ?case
  proof (cases bs)
    case Nil
    then show ?thesis by simp
  next
    case (Cons b' bs')
    have "slices ((pre @ b) @ concat bs) (nat_offsets (length (pre @ b)) bs) = bs"
      using Cons.IH[of "pre @ b"] Cons by simp
    then show ?thesis
      using Cons by simp
  qed
qed

lemma sorted_nat_offsets: "sorted (nat_offsets off blobs)"
proof (induction blobs arbitrary: off)
  case Nil
  then show ?case by simp
next
  case (Cons b bs)
  have "\<forall>x\<in>set (nat_offsets off' bs). off' \<le> x" for off'
  proof (induction bs arbitrary: off')
    case Nil
    then show ?case by simp
  next
    case (Cons c cs)
    from Cons[of "off' + length c"] show ?case by auto
  qed
  from this[of "off + length b"] Cons show ?case by auto
qed

lemma nat_offsets_bound:
  "\<forall>x\<in>set (nat_offsets off blobs). x \<le> off + length (concat blobs)"
proof (induction blobs arbitrary: off)
  case Nil
  then show ?case by simp
next
  case (Cons b bs)
  from Cons[of "off + length b"] show ?case by auto
qed


lemma read_offset_bytes_of [simp]: "read_offset (bytes_of 4 (w :: 32 word)) = unat w"
  by (simp add: read_offset_def of_bytes_bytes_of)

lemma DecodeSliceOfDynamicBytesContent_roundtrip:
  assumes cap: "length blobs \<le> maxItems" "list_all (\<lambda>blob. length blob \<le> maxSize) blobs"
      and fits: "4 * length blobs + length (concat blobs) < 2 ^ 32"
  shows "DecodeSliceOfDynamicBytesContent (EncodeSliceOfDynamicBytesContent blobs)
           maxItems maxSize = Inr blobs"
proof (cases "blobs = []")
  case True
  then show ?thesis
    by (simp add: DecodeSliceOfDynamicBytesContent_def EncodeSliceOfDynamicBytesContent_def)
next
  case ne: False
  define n where "n = length blobs"
  define off0 :: "32 word" where "off0 = of_nat (4 * n)"
  define offs where "offs = blob_offsets off0 blobs"
  define tbl where "tbl = concat (map (bytes_of 4) offs)"
  define region where "region = tbl @ concat blobs"
  have region: "EncodeSliceOfDynamicBytesContent blobs = region"
    by (simp add: EncodeSliceOfDynamicBytesContent_def region_def tbl_def offs_def n_def
        off0_def)
  have n0: "0 < n" using ne by (simp add: n_def)
  have len_offs: "length offs = n" by (simp add: offs_def n_def)
  have len_tbl: "length tbl = 4 * n"
    using length_concat_fixed[where f = "bytes_of 4" and width = 4 and xs = offs]
    by (simp add: tbl_def len_offs)
  have len_region: "length region = 4 * n + length (concat blobs)"
    by (simp add: region_def len_tbl)
  have u4n: "unat off0 = 4 * n"
    unfolding off0_def unat_of_nat using fits by (simp add: n_def)
  have nat_offs: "map unat offs = nat_offsets (4 * n) blobs"
    unfolding offs_def using unat_blob_offsets[of off0 blobs] fits
    by (simp add: u4n n_def)
  have split: "split_every 4 n region = map (bytes_of 4) offs"
    unfolding region_def tbl_def
    using split_every_concat[where f = "bytes_of 4" and width = 4 and xs = offs]
    by (simp add: len_offs)
  have read: "map read_offset (split_every 4 n region) = nat_offsets (4 * n) blobs"
    by (simp add: split nat_offs[symmetric] comp_def)
  obtain o1 offs' where offs_cons: "offs = o1 # offs'"
    using n0 len_offs by (cases offs) auto
  have o1: "o1 = off0"
    using offs_cons ne by (cases blobs) (simp_all add: offs_def)
  have first: "read_offset (take 4 region) = 4 * n"
    by (simp add: region_def tbl_def offs_cons o1 u4n)
  have sl: "slices region (nat_offsets (4 * n) blobs) = blobs"
    unfolding region_def using slices_nat_offsets[OF ne, of tbl] by (simp add: len_tbl)
  have bound: "list_all (\<lambda>off. off \<le> 4 * n + length (concat blobs))
                  (nat_offsets (4 * n) blobs)"
    using nat_offsets_bound[of "4 * n" blobs] by (simp add: list_all_iff)
  have region_ne: "region \<noteq> []" "\<not> length region < 4"
    using n0 len_region by auto
  show ?thesis
    unfolding region DecodeSliceOfDynamicBytesContent_def
    using n0 region_ne cap
    by (simp add: first Let_def len_region read bound sorted_nat_offsets sl n_def[symmetric])
qed

subsection \<open>Static objects\<close>

lemma decode_objects_roundtrip:
  assumes "\<forall>w\<in>set ws. wd_decode W (wd_encode W w) = Inr w"
  shows "decode_objects W (map (wd_encode W) ws) = Inr ws"
  using assms by (induction ws) simp_all

lemma DecodeSliceOfStaticObjectsContent_roundtrip:
  assumes ok: "\<forall>w\<in>set ws. withdrawal_codec_ok W w"
      and cap: "length ws \<le> maxItems"
  shows "DecodeSliceOfStaticObjectsContent W (concat (map (wd_encode W) ws)) maxItems = Inr ws"
proof (cases "ws = []")
  case True
  then show ?thesis
    by (simp add: DecodeSliceOfStaticObjectsContent_def)
next
  case ne: False
  define width where "width = unat (wd_SizeSSZ W)"
  have w0: "0 < width"
    using ok ne by (cases ws) (simp_all add: withdrawal_codec_ok_def width_def)
  have each: "\<forall>w\<in>set ws. length (wd_encode W w) = width"
    using ok by (simp add: withdrawal_codec_ok_def width_def)
  have len: "length (concat (map (wd_encode W) ws)) = length ws * width"
    using each by (rule length_concat_fixed)
  have dec: "\<forall>w\<in>set ws. wd_decode W (wd_encode W w) = Inr w"
    using ok by (simp add: withdrawal_codec_ok_def)
  have "0 < length (concat (map (wd_encode W) ws))"
    using w0 ne by (simp add: len)
  then have ne': "concat (map (wd_encode W) ws) \<noteq> []"
    by simp
  show ?thesis
    unfolding DecodeSliceOfStaticObjectsContent_def if_not_P[OF ne']
    using w0 cap
    by (simp add: width_def[symmetric] len
        split_every_concat'[OF each] decode_objects_roundtrip[OF dec])
qed


subsection \<open>The record\<close>

lemma of_bytes_replicate_zero [simp]: "of_bytes (replicate n 0) = 0"
  by (induction n) (simp_all add: of_bytes_def)

lemma of_bytes_EncodeUint256:
  "(of_bytes (EncodeUint256 b) :: U256) = (case b of None \<Rightarrow> 0 | Some v \<Rightarrow> v)"
  by (simp add: EncodeUint256_def of_bytes_bytes_of split: option.splits)

lemma DecodeOps_append:
  "DecodeOps W (xs @ ys) d =
     (case DecodeOps W xs d of Inl err \<Rightarrow> Inl err | Inr d' \<Rightarrow> DecodeOps W ys d')"
  by (induction xs arbitrary: d) (simp_all split: sum.splits)

lemma decode_layout:
  fixes p q :: "'w ExecutionPayload"
  assumes buf: "buf = static_region W p o1 o2 o3 @ R1 @ R2 @ R3"
      and o1: "unat o1 = 528" and o2: "unat o2 = 528 + length R1"
      and o3: "unat o3 = 528 + length R1 + length R2"
      and r1: "length R1 \<le> 32"
      and r2: "DecodeSliceOfDynamicBytesContent R2 (MaxTxsPerPayload K) (MaxBytesPerTx K) = Inr txs"
      and r3: "DecodeSliceOfStaticObjectsContent W R3 16 = Inr ws"
  shows "DecodeFromBytes K W buf q =
     Inr (q\<lparr> ParentHash := ParentHash p, FeeRecipient := FeeRecipient p,
              StateRoot := StateRoot p, ReceiptsRoot := ReceiptsRoot p,
              LogsBloom := LogsBloom p, Random := Random p, Number := Number p,
              GasLimit := GasLimit p, GasUsed := GasUsed p, Timestamp := Timestamp p,
              BaseFeePerGas := Some (case BaseFeePerGas p of None \<Rightarrow> 0 | Some v \<Rightarrow> v),
              BlockHash := BlockHash p,
              BlobGasUsed := BlobGasUsed p, ExcessBlobGas := ExcessBlobGas p,
              ExtraData := R1, Transactions := txs, Withdrawals := Some ws \<rparr>)"
  unfolding buf DecodeFromBytes_def DefineSSZ_def
  using r1 r2 r3
  by (simp add: read_static_def read_field_offset_def static_region_def array_ptr_def
      field_ptr_def of_bytes_bytes_of of_bytes_EncodeUint256 o1 o2 o3 region_of_def Let_def
      SizeSSZ_def ExecutionPayloadStaticSize_def)

lemma decode_layout_over_capacity:
  fixes p q :: "'w ExecutionPayload"
  assumes buf: "buf = static_region W p o1 o2 o3 @ R1 @ R2 @ R3"
      and o1: "unat o1 = 528" and o2: "unat o2 = 528 + length R1"
      and o3: "unat o3 = 528 + length R1 + length R2"
      and r1: "32 < length R1"
  shows "DecodeFromBytes K W buf q = Inl CapacityExceeded"
  unfolding buf DecodeFromBytes_def DefineSSZ_def
  using r1
  by (simp add: read_static_def read_field_offset_def static_region_def array_ptr_def
      field_ptr_def of_bytes_bytes_of of_bytes_EncodeUint256 o1 o2 o3 region_of_def Let_def
      SizeSSZ_def ExecutionPayloadStaticSize_def)

text \<open>
  A buffer of 528 zero bytes has the length of the static region, but the first offset
  in it is zero, which is below the size of the static region: it is refused.
\<close>

lemma UnmarshalSSZ_zero_static_region:
  "UnmarshalSSZ V K W v (replicate 528 0) = Inl OffsetOutOfOrder"
  unfolding UnmarshalSSZ_def DecodeFromBytes_def DefineSSZ_def
  by (simp add: read_static_def read_field_offset_def array_ptr_def
      field_ptr_def region_of_def Let_def read_offset_def
      SizeSSZ_def ExecutionPayloadStaticSize_def)

text \<open>
  A buffer that \<^verbatim>\<open>MarshalSSZ\<close> returned without error is the static region followed by the
  three contents, and the offsets written in the static region are the positions of the
  contents: the size accounting did not wrap around.
\<close>

lemma MarshalSSZ_layout:
  fixes p :: "'w ExecutionPayload"
  assumes ok: "MarshalSSZ K W p = (bs, None)"
  obtains o2 o3 :: "32 word" where
    "bs = static_region W p 528 o2 o3 @ ExtraData p
          @ EncodeSliceOfDynamicBytesContent (Transactions p)
          @ concat (map (wd_encode W) (slice_of (Withdrawals p)))"
    "unat o2 = 528 + length (ExtraData p)"
    "unat o3 = 528 + length (ExtraData p)
               + length (EncodeSliceOfDynamicBytesContent (Transactions p))"
    "4 * length (Transactions p) + length (concat (Transactions p)) < 2 ^ 32"
proof -
  define ed where "ed = ExtraData p"
  define txs where "txs = Transactions p"
  define R2 where "R2 = EncodeSliceOfDynamicBytesContent txs"
  define R3 where "R3 = concat (map (wd_encode W) (slice_of (Withdrawals p)))"
  define o2 :: "32 word" where "o2 = 528 + SizeDynamicBytes ed"
  define o3 :: "32 word" where "o3 = 528 + SizeDynamicBytes ed + SizeSliceOfDynamicBytes txs"
  have stream: "encode_stream K W p = static_region W p 528 o2 o3 @ ed @ R2 @ R3"
    by (simp add: encode_stream_eq ed_def txs_def R2_def R3_def o2_def o3_def)
  from ok have len: "length (encode_stream K W p) = unat (ssz_Size W p)"
    and bs: "bs = encode_stream K W p"
    by (auto simp: MarshalSSZ_def EncodeToBytes_def Let_def split: if_splits)
  have lenR2: "length R2 = 4 * length txs + length (concat txs)"
    by (simp add: R2_def length_EncodeSliceOfDynamicBytesContent)
  have total: "528 + length ed + length R2 + length R3 < 2 ^ 32"
  proof -
    have "length (encode_stream K W p) = 528 + length ed + length R2 + length R3"
      by (simp add: stream)
    moreover have "unat (ssz_Size W p) < 2 ^ 32"
      using unsigned_less[of "ssz_Size W p", where 'a = nat] by simp
    ultimately show ?thesis using len by simp
  qed
  have o2_eq: "o2 = of_nat (528 + length ed)"
    by (simp add: o2_def SizeDynamicBytes_def)
  have o3_eq: "o3 = of_nat (528 + length ed + length R2)"
    by (simp add: o3_def SizeDynamicBytes_def SizeSliceOfDynamicBytes_of_nat lenR2)
  have u2: "unat o2 = 528 + length ed"
    unfolding o2_eq using total by (intro unat_of_nat_u32) simp
  have u3: "unat o3 = 528 + length ed + length R2"
    unfolding o3_eq using total by (intro unat_of_nat_u32) simp
  have fits: "4 * length txs + length (concat txs) < 2 ^ 32"
    using total lenR2 by simp
  show ?thesis
    using that[of o2 o3] stream bs u2 u3 fits
    by (simp add: ed_def txs_def R2_def R3_def)
qed

text \<open>
  Decoding the encoding of a record within the declared maxima yields the record in its
  decoded form, at whatever version it is decoded.
\<close>

lemma UnmarshalSSZ_MarshalSSZ:
  fixes p :: "'w ExecutionPayload"
  assumes ok: "MarshalSSZ K W p = (bs, None)"
      and codec: "\<forall>w\<in>set (slice_of (Withdrawals p)). withdrawal_codec_ok W w"
      and cap: "list_all (within_capacity p) (DefineSSZ K)"
  shows "UnmarshalSSZ V K W v bs = Inr (decoded_form v p)"
proof -
  define ed where "ed = ExtraData p"
  define txs where "txs = Transactions p"
  define ws where "ws = slice_of (Withdrawals p)"
  define R2 where "R2 = EncodeSliceOfDynamicBytesContent txs"
  define R3 where "R3 = concat (map (wd_encode W) ws)"
  from ok obtain o2 o3 :: "32 word" where
        bs: "bs = static_region W p 528 o2 o3 @ ed @ R2 @ R3"
    and u2: "unat o2 = 528 + length ed"
    and u3: "unat o3 = 528 + length ed + length R2"
    and fits: "4 * length txs + length (concat txs) < 2 ^ 32"
    unfolding ed_def txs_def ws_def R2_def R3_def by (rule MarshalSSZ_layout)
  from cap have cap_ed: "length ed \<le> 32"
    and cap_txs: "length txs \<le> MaxTxsPerPayload K"
                 "list_all (\<lambda>blob. length blob \<le> MaxBytesPerTx K) txs"
    and cap_ws: "length ws \<le> 16"
    by (simp_all add: DefineSSZ_def field_ptr_def ed_def txs_def ws_def)
  have u1: "unat (528 :: 32 word) = 528"
    by simp
  have r2: "DecodeSliceOfDynamicBytesContent R2 (MaxTxsPerPayload K) (MaxBytesPerTx K) = Inr txs"
    unfolding R2_def using cap_txs fits by (rule DecodeSliceOfDynamicBytesContent_roundtrip)
  have codec_ws: "\<forall>w\<in>set ws. withdrawal_codec_ok W w"
    using codec by (simp add: ws_def)
  have r3: "DecodeSliceOfStaticObjectsContent W R3 16 = Inr ws"
    unfolding R3_def using codec_ws cap_ws by (rule DecodeSliceOfStaticObjectsContent_roundtrip)
  define q where "q = (NewEmptyExecutionPayloadWithVersion V v :: 'w ExecutionPayload)"
  have dec: "DecodeFromBytes K W bs q =
     Inr (q\<lparr> ParentHash := ParentHash p, FeeRecipient := FeeRecipient p,
              StateRoot := StateRoot p, ReceiptsRoot := ReceiptsRoot p,
              LogsBloom := LogsBloom p, Random := Random p, Number := Number p,
              GasLimit := GasLimit p, GasUsed := GasUsed p, Timestamp := Timestamp p,
              BaseFeePerGas := Some (case BaseFeePerGas p of None \<Rightarrow> 0 | Some v \<Rightarrow> v),
              BlockHash := BlockHash p,
              BlobGasUsed := BlobGasUsed p, ExcessBlobGas := ExcessBlobGas p,
              ExtraData := ed, Transactions := txs, Withdrawals := Some ws \<rparr>)"
    using bs u1 u2 u3 cap_ed r2 r3 by (rule decode_layout)
  show ?thesis
    unfolding UnmarshalSSZ_def Let_def q_def[symmetric] dec
    by (simp add: ValidateAfterDecodingSSZ_def decoded_form_def q_def
        NewEmptyExecutionPayloadWithVersion_def NewVersionable_def GetForkVersion_def
        Let_def ed_def txs_def ws_def)
qed

text \<open>
  The encoder writes a record whose \<^verbatim>\<open>ExtraData\<close> is longer than 32 bytes, and the decoder
  refuses what it wrote.
\<close>

lemma UnmarshalSSZ_over_capacity:
  fixes p :: "'w ExecutionPayload"
  assumes ok: "MarshalSSZ K W p = (bs, None)"
      and long: "32 < length (ExtraData p)"
  shows "UnmarshalSSZ V K W v bs = Inl CapacityExceeded"
proof -
  from ok obtain o2 o3 :: "32 word" where
        bs: "bs = static_region W p 528 o2 o3 @ ExtraData p
                  @ EncodeSliceOfDynamicBytesContent (Transactions p)
                  @ concat (map (wd_encode W) (slice_of (Withdrawals p)))"
    and u2: "unat o2 = 528 + length (ExtraData p)"
    and u3: "unat o3 = 528 + length (ExtraData p)
                       + length (EncodeSliceOfDynamicBytesContent (Transactions p))"
    by (rule MarshalSSZ_layout)
  have u1: "unat (528 :: 32 word) = 528"
    by simp
  have "DecodeFromBytes K W bs (NewEmptyExecutionPayloadWithVersion V v) = Inl CapacityExceeded"
    using bs u1 u2 u3 long by (rule decode_layout_over_capacity)
  then show ?thesis
    by (simp add: UnmarshalSSZ_def Let_def)
qed

lemma example_codec_ok: "withdrawal_codec_ok example_codec w"
  by (simp add: withdrawal_codec_ok_def example_codec_def of_bytes_bytes_of)

lemma example_like_payload_within_capacity:
  fixes p :: "(32 word) ExecutionPayload"
  assumes "length (ExtraData p) \<le> 32" and "Transactions p = [[10, 20], []]"
      and "length (slice_of (Withdrawals p)) \<le> 16"
  shows "list_all (within_capacity p) (DefineSSZ example_constants)"
  using assms by (simp add: DefineSSZ_def field_ptr_def example_constants_def)

lemma example_like_payload_roundtrip:
  fixes p :: "(32 word) ExecutionPayload"
  assumes "length (ExtraData p) \<le> 32" and "Transactions p = [[10, 20], []]"
      and "length (slice_of (Withdrawals p)) \<le> 16"
  shows "snd (MarshalSSZ example_constants example_codec p) = None
       \<and> UnmarshalSSZ example_forks example_constants example_codec v
           (fst (MarshalSSZ example_constants example_codec p)) = Inr (decoded_form v p)"
proof -
  have m: "MarshalSSZ example_constants example_codec p =
             (encode_stream example_constants example_codec p, None)"
    using assms by (intro example_like_payload_marshals) simp_all
  have "UnmarshalSSZ example_forks example_constants example_codec v
          (encode_stream example_constants example_codec p) = Inr (decoded_form v p)"
    using m
  proof (rule UnmarshalSSZ_MarshalSSZ)
    show "\<forall>w\<in>set (slice_of (Withdrawals p)). withdrawal_codec_ok example_codec w"
      by (simp add: example_codec_ok)
    show "list_all (within_capacity p) (DefineSSZ example_constants)"
      using assms by (rule example_like_payload_within_capacity)
  qed
  with m show ?thesis by simp
qed


text \<open>
  Three more records that are encoded without error and do not come back. A nil
  \<^verbatim>\<open>BaseFeePerGas\<close> is written as zero and read as a non-nil zero. Before Capella, where
  the post-decode validation leaves a nil \<^verbatim>\<open>Withdrawals\<close> as it is, the decoder has already
  made it the empty list. And a record whose \<^verbatim>\<open>ExtraData\<close> has 33 bytes is encoded, but
  decoding the bytes fails: the second half of the claim, that decoding what \<^verbatim>\<open>MarshalSSZ\<close>
  produced never fails, does not hold either.
\<close>

lemma roundtrip_nil_base_fee:
  "snd (MarshalSSZ example_constants example_codec (example_payload\<lparr>BaseFeePerGas := None\<rparr>)) = None
   \<and> UnmarshalSSZ example_forks example_constants example_codec
        (GetForkVersion (example_payload\<lparr>BaseFeePerGas := None\<rparr>))
        (fst (MarshalSSZ example_constants example_codec
               (example_payload\<lparr>BaseFeePerGas := None\<rparr>)))
       = Inr example_payload"
proof -
  define p where "p = example_payload\<lparr>BaseFeePerGas := None\<rparr>"
  have rt: "snd (MarshalSSZ example_constants example_codec p) = None
       \<and> UnmarshalSSZ example_forks example_constants example_codec (GetForkVersion p)
           (fst (MarshalSSZ example_constants example_codec p))
         = Inr (decoded_form (GetForkVersion p) p)"
    by (rule example_like_payload_roundtrip)
       (simp_all add: p_def example_payload_def slice_of_def)
  moreover have "decoded_form (GetForkVersion p) p = example_payload"
    by (simp add: decoded_form_def p_def example_payload_def slice_of_def
        GetForkVersion_def NewEmptyExecutionPayloadWithVersion_def NewVersionable_def Let_def)
  ultimately show ?thesis
    by (simp add: p_def)
qed

lemma roundtrip_nil_withdrawals_before_capella:
  "fst (ValidateAfterDecodingSSZ example_forks
          (example_payload\<lparr>Versionable := 2, Withdrawals := None\<rparr>))
     = example_payload\<lparr>Versionable := 2, Withdrawals := None\<rparr>
   \<and> snd (MarshalSSZ example_constants example_codec
          (example_payload\<lparr>Versionable := 2, Withdrawals := None\<rparr>)) = None
   \<and> UnmarshalSSZ example_forks example_constants example_codec
        (GetForkVersion (example_payload\<lparr>Versionable := 2, Withdrawals := None\<rparr>))
        (fst (MarshalSSZ example_constants example_codec
               (example_payload\<lparr>Versionable := 2, Withdrawals := None\<rparr>)))
       = Inr (example_payload\<lparr>Versionable := 2, Withdrawals := Some []\<rparr>)"
proof -
  define p where "p = example_payload\<lparr>Versionable := 2, Withdrawals := None\<rparr>"
  have rt: "snd (MarshalSSZ example_constants example_codec p) = None
       \<and> UnmarshalSSZ example_forks example_constants example_codec (GetForkVersion p)
           (fst (MarshalSSZ example_constants example_codec p))
         = Inr (decoded_form (GetForkVersion p) p)"
    by (rule example_like_payload_roundtrip)
       (simp_all add: p_def example_payload_def slice_of_def)
  moreover have "decoded_form (GetForkVersion p) p =
                   example_payload\<lparr>Versionable := 2, Withdrawals := Some []\<rparr>"
    by (simp add: decoded_form_def p_def example_payload_def slice_of_def
        GetForkVersion_def NewEmptyExecutionPayloadWithVersion_def NewVersionable_def Let_def)
  moreover have "fst (ValidateAfterDecodingSSZ example_forks p) = p"
    by (simp add: ValidateAfterDecodingSSZ_def p_def example_forks_def GetForkVersion_def
        EqualsOrIsAfter_def)
  ultimately show ?thesis
    by (simp add: p_def)
qed

lemma roundtrip_over_capacity_fails:
  "snd (MarshalSSZ example_constants example_codec
          (example_payload\<lparr>ExtraData := replicate 33 1\<rparr>)) = None
   \<and> UnmarshalSSZ example_forks example_constants example_codec
        (GetForkVersion (example_payload\<lparr>ExtraData := replicate 33 1\<rparr>))
        (fst (MarshalSSZ example_constants example_codec
               (example_payload\<lparr>ExtraData := replicate 33 1\<rparr>)))
       = Inl CapacityExceeded"
proof -
  define p where "p = example_payload\<lparr>ExtraData := replicate 33 1\<rparr>"
  have m: "MarshalSSZ example_constants example_codec p =
             (encode_stream example_constants example_codec p, None)"
    by (rule example_like_payload_marshals)
       (simp_all add: p_def example_payload_def slice_of_def)
  have "UnmarshalSSZ example_forks example_constants example_codec (GetForkVersion p)
          (encode_stream example_constants example_codec p) = Inl CapacityExceeded"
    using m by (rule UnmarshalSSZ_over_capacity) (simp add: p_def)
  with m show ?thesis
    by (simp add: p_def)
qed



end
